theory Spec2Isabelle
  imports Main "HOL-Library.Word" "HOL-Library.Sublist"
begin

unbundle bit_operations_syntax

section \<open>Bytes, strings and the random source\<close>

type_synonym byte = "8 word"
type_synonym bytes = "byte list"

text \<open>
  The cryptographically secure random source of Node's \<open>crypto\<close> module is an infinite
  stream of bytes. Reading \<open>n\<close> bytes returns them and leaves the rest of the stream.
\<close>

type_synonym rng = "nat \<Rightarrow> byte"

definition rng_take :: "nat \<Rightarrow> rng \<Rightarrow> bytes" where
  "rng_take n r = map r [0..<n]"

definition rng_drop :: "nat \<Rightarrow> rng \<Rightarrow> rng" where
  "rng_drop n r = (\<lambda>i. r (i + n))"

text \<open>\<open>crypto.randomBytes(n)\<close>.\<close>

definition randomBytes :: "nat \<Rightarrow> rng \<Rightarrow> bytes \<times> rng" where
  "randomBytes n r = (rng_take n r, rng_drop n r)"

text \<open>
  \<open>randomFillSync(new Uint32Array(n))\<close>: \<open>n\<close> elements of 32 bits, four random bytes
  each (little-endian, as on every platform Node runs on).
\<close>

definition u32_of_bytes :: "byte \<Rightarrow> byte \<Rightarrow> byte \<Rightarrow> byte \<Rightarrow> 32 word" where
  "u32_of_bytes b0 b1 b2 b3 =
     ucast b0 OR push_bit 8 (ucast b1) OR push_bit 16 (ucast b2) OR push_bit 24 (ucast b3)"

definition randomFillSync_Uint32Array :: "nat \<Rightarrow> rng \<Rightarrow> 32 word list \<times> rng" where
  "randomFillSync_Uint32Array n r =
     (map (\<lambda>i. u32_of_bytes (r (4 * i)) (r (4 * i + 1)) (r (4 * i + 2)) (r (4 * i + 3))) [0..<n],
      rng_drop (4 * n) r)"

text \<open>
  JavaScript truthiness of an optional string argument: \<open>undefined\<close> and the empty
  string are falsy.
\<close>

definition truthy :: "string option \<Rightarrow> bool" where
  "truthy v = (case v of None \<Rightarrow> False | Some s \<Rightarrow> s \<noteq> [])"

text \<open>
  \<open>String.prototype.replace(pattern, replacement)\<close> with a string pattern: the first
  occurrence is replaced, a string without the pattern is returned as it is. (The
  replacement strings of the program contain no \<open>$\<close>.)
\<close>

fun String_replace :: "string \<Rightarrow> string \<Rightarrow> string \<Rightarrow> string" where
  "String_replace pat rep [] = (if pat = [] then rep else [])"
| "String_replace pat rep (c # cs) =
     (if prefix pat (c # cs) then rep @ drop (length pat) (c # cs)
      else c # String_replace pat rep cs)"

text \<open>\<open>String.prototype.replaceAll(pattern, replacement)\<close> with a string pattern.\<close>

function String_replaceAll :: "string \<Rightarrow> string \<Rightarrow> string \<Rightarrow> string" where
  "String_replaceAll pat rep s =
     (if pat = [] then rep @ concat (map (\<lambda>c. c # rep) s)
      else if s = [] then []
      else if prefix pat s then rep @ String_replaceAll pat rep (drop (length pat) s)
      else hd s # String_replaceAll pat rep (tl s))"
  by pat_completeness auto
termination
  by (relation "measure (\<lambda>(pat, rep, s). length s)") auto

declare String_replaceAll.simps [simp del]

text \<open>\<open>String.prototype.toUpperCase\<close> on the ASCII range (bytes above 127 are kept).\<close>

definition toUpperCase_char :: "char \<Rightarrow> char" where
  "toUpperCase_char c =
     (let n = (of_char c :: nat) in if 97 \<le> n \<and> n \<le> 122 then char_of (n - 32) else c)"

definition toUpperCase :: "string \<Rightarrow> string" where
  "toUpperCase s = map toUpperCase_char s"

section \<open>cryptoUtils\<close>

definition defaultChars :: string where
  "defaultChars = ''0123456789ABCDEFGHIJKLMNOPQRSTUVWXYZabcdefghijklmnopqrstuvwxyz!$%&?''"

text \<open>
  \<open>generatePwd(length = 48, chars = defaultChars)\<close>. \<open>chars[x % chars.length]\<close> is
  \<open>undefined\<close> for an empty \<open>chars\<close> (the index is \<open>NaN\<close>), which \<open>join\<close> writes as
  the empty string. Absent arguments take the defaults.
\<close>

definition generatePwd :: "nat option \<Rightarrow> string option \<Rightarrow> rng \<Rightarrow> string \<times> rng" where
  "generatePwd len_arg chars_arg r =
     (let len = (case len_arg of None \<Rightarrow> 48 | Some n \<Rightarrow> n);
          chars = (case chars_arg of None \<Rightarrow> defaultChars | Some cs \<Rightarrow> cs);
          (xs, r') = randomFillSync_Uint32Array len r
      in (concat (map (\<lambda>x. if chars = [] then [] else [chars ! (unat x mod length chars)]) xs),
          r'))"

text \<open>
  The \<open>uuid\<close> package is a dependency of the program. Its \<open>v4()\<close> takes 16 random
  bytes, sets the version nibble of byte 6 to 4 and the two top bits of byte 8 to the
  RFC 4122 variant, and prints the bytes in lower-case hexadecimal, grouped 8-4-4-4-12
  with hyphens; \<open>NIL\<close> is the all-zero identifier in the same form.
\<close>

definition hexDigit :: "nat \<Rightarrow> char" where
  "hexDigit n = ''0123456789abcdef'' ! n"

definition byteToHex :: "byte \<Rightarrow> string" where
  "byteToHex b = [hexDigit (unat b div 16), hexDigit (unat b mod 16)]"

definition uuid_stringify :: "bytes \<Rightarrow> string" where
  "uuid_stringify bs =
     concat (map byteToHex (take 4 bs)) @ ''-'' @
     concat (map byteToHex (take 2 (drop 4 bs))) @ ''-'' @
     concat (map byteToHex (take 2 (drop 6 bs))) @ ''-'' @
     concat (map byteToHex (take 2 (drop 8 bs))) @ ''-'' @
     concat (map byteToHex (take 6 (drop 10 bs)))"

definition uuidv4 :: "rng \<Rightarrow> string \<times> rng" where
  "uuidv4 r =
     (let (rnds, r') = randomBytes 16 r;
          rnds6 = rnds[6 := (rnds ! 6 AND 0x0f) OR 0x40];
          rnds8 = rnds6[8 := (rnds6 ! 8 AND 0x3f) OR 0x80]
      in (uuid_stringify rnds8, r'))"

definition NIL_UUID :: string where
  "NIL_UUID = ''00000000-0000-0000-0000-000000000000''"

text \<open>\<open>getUuid(value)\<close>: \<open>(value || uuidv4()).replaceAll('-', '').toUpperCase()\<close>.\<close>

definition getUuid :: "string option \<Rightarrow> rng \<Rightarrow> string \<times> rng" where
  "getUuid value r =
     (let (u, r') = (if truthy value then (the value, r) else uuidv4 r)
      in (toUpperCase (String_replaceAll ''-'' '''' u), r'))"

definition getNilUuid :: "rng \<Rightarrow> string \<times> rng" where
  "getNilUuid r = getUuid (Some NIL_UUID) r"

section \<open>Relative paths of CryptDir\<close>

text \<open>\<open>#getRelativePath\<close>: \<open>fullName.replace(this.srcDir + '\\', '')\<close>.\<close>

definition backslash :: char where
  "backslash = CHR 0x5C"

definition getRelativePath :: "string \<Rightarrow> string \<Rightarrow> string" where
  "getRelativePath src fullName = String_replace (src @ [backslash]) '''' fullName"

section \<open>The data model\<close>

text \<open>
  A dirent of the manifest is \<open>{ path, fileId? }\<close>: a directory has no \<open>fileId\<close>. A
  file of the manifest is \<open>{ fileId, fileHash, pwd }\<close>. The fields are prefixed here
  (\<open>d_\<close>, \<open>f_\<close>, \<open>e_\<close>, \<open>sd_\<close>) because both objects have a \<open>fileId\<close>.
\<close>

record dirent =
  d_path :: string
  d_fileId :: "string option"

record fileobj =
  f_fileId :: string
  f_fileHash :: string
  f_pwd :: string

text \<open>The object \<open>{ dirents, files }\<close> of \<open>getEntries\<close>, which is what the store holds.\<close>

record entries =
  e_dirents :: "dirent list"
  e_files :: "fileobj list"

text \<open>An \<open>fs.Dirent\<close> of \<open>readdirSync(dir, { recursive: true, withFileTypes: true })\<close>.\<close>

record src_dirent =
  sd_name :: string
  sd_path :: string
  sd_isDirectory :: bool

section \<open>The world: file system, random source, logger, journal\<close>

datatype node = Directory | File bytes

text \<open>
  The journal records the completed effects on the store that the properties speak about: a
  source file streamed through the cipher pipeline into a target
  (\<open>encryptFileToFile\<close>), an object encrypted into a target (\<open>encryptJsonToFile\<close>), a
  path removed (\<open>fs.rmSync\<close>).
\<close>

datatype effect =
    EncryptedFile string string
  | EncryptedJson string
  | RemovedPath string

record world =
  fs :: "string \<Rightarrow> node option"
  rnd :: rng
  logged :: "string list"
  effects :: "effect list"

text \<open>
  What Node's libraries compute: the functions of \<open>crypto\<close>, \<open>zlib\<close>, \<open>path\<close>,
  \<open>fs\<close>, \<open>JSON\<close> and \<open>Intl\<close> that the program calls and does not define.
  \<^item> \<open>sha256\<close>: \<open>createHash('sha256').update(x).digest()\<close>;
  \<^item> \<open>gzip\<close>: the output of \<open>createGzip()\<close> for an input stream;
  \<^item> \<open>unzip\<close>: the bytes that \<open>createUnzip()\<close> emits for its input, given whether the
    input ended, and whether it then ended itself without an error;
  \<^item> \<open>cipher\<close>: the chunks that \<open>createCipheriv('aes256', key, iv)\<close> emits for an input
    stream; \<open>decipher\<close>: the bytes \<open>createDecipheriv\<close> emits and whether it ended
    without an error;
  \<^item> \<open>path_join\<close>: \<open>path.join\<close>; \<open>path_within\<close>: whether a path lies in a directory;
  \<^item> \<open>readdirSync\<close>: the recursive listing of a directory;
  \<^item> \<open>localeCompare\<close>: the comparison with \<open>numeric\<close> and base sensitivity;
  \<^item> \<open>JSON_stringify\<close>, \<open>JSON_stringify_dirents\<close>, \<open>JSON_parse\<close>: \<open>JSON.stringify\<close>
    of an entries object and of an array of dirents, and \<open>JSON.parse\<close> (\<open>None\<close>: it throws).
\<close>

record env =
  sha256 :: "bytes \<Rightarrow> bytes"
  gzip :: "bytes \<Rightarrow> bytes"
  unzip :: "bytes \<Rightarrow> bool \<Rightarrow> bytes \<times> bool"
  cipher :: "bytes \<Rightarrow> bytes \<Rightarrow> bytes \<Rightarrow> bytes list"
  decipher :: "bytes \<Rightarrow> bytes \<Rightarrow> bytes \<Rightarrow> bytes \<times> bool"
  path_join :: "string \<Rightarrow> string \<Rightarrow> string"
  path_within :: "string \<Rightarrow> string \<Rightarrow> bool"
  readdirSync :: "(string \<Rightarrow> node option) \<Rightarrow> string \<Rightarrow> src_dirent list"
  localeCompare :: "string \<Rightarrow> string \<Rightarrow> int"
  JSON_stringify :: "entries \<Rightarrow> string"
  JSON_stringify_dirents :: "dirent list \<Rightarrow> string"
  JSON_parse :: "string \<Rightarrow> entries option"

text \<open>
  An awaited promise resolves with a value, stays pending for ever (nothing after the
  \<open>await\<close> runs), or an exception ends the run.
\<close>

datatype 'a outcome = Resolved 'a | Pending | Threw string

definition await :: "'a outcome \<times> 's \<Rightarrow> ('a \<Rightarrow> 's \<Rightarrow> 'b outcome \<times> 's) \<Rightarrow> 'b outcome \<times> 's" where
  "await m k =
     (case m of
        (Resolved a, s) \<Rightarrow> k a s
      | (Pending, s) \<Rightarrow> (Pending, s)
      | (Threw e, s) \<Rightarrow> (Threw e, s))"

text \<open>
  Text and bytes: a \<open>string\<close> of this theory is the text in UTF-8, one \<open>char\<close> per
  byte, so encoding and decoding keep the bytes.
\<close>

definition utf8_encode :: "string \<Rightarrow> bytes" where
  "utf8_encode s = map (\<lambda>c. of_nat (of_char c)) s"

definition utf8_decode :: "bytes \<Rightarrow> string" where
  "utf8_decode bs = map (\<lambda>b. char_of (unat b)) bs"

definition quoted :: "string \<Rightarrow> string" where
  "quoted s = [CHR 0x27] @ s @ [CHR 0x27]"

text \<open>
  \<open>log(message)\<close> hands the message to the logger (the later version of \<open>log.mjs\<close>
  puts the local time in front of it, which the properties do not depend on).
\<close>

definition log :: "string \<Rightarrow> world \<Rightarrow> world" where
  "log message w = w\<lparr>logged := logged w @ [message]\<rparr>"

definition journal :: "effect \<Rightarrow> world \<Rightarrow> world" where
  "journal e w = w\<lparr>effects := effects w @ [e]\<rparr>"

definition existsSync :: "world \<Rightarrow> string \<Rightarrow> bool" where
  "existsSync w p = (fs w p \<noteq> None)"

definition mkdirSync :: "string \<Rightarrow> world \<Rightarrow> world" where
  "mkdirSync p w = w\<lparr>fs := (fs w)(p \<mapsto> Directory)\<rparr>"

text \<open>
  \<open>fs.rmSync(path, options)\<close>: with \<open>{ recursive: true }\<close> everything within the path
  goes too.
\<close>

definition rmSync :: "env \<Rightarrow> string \<Rightarrow> bool \<Rightarrow> world \<Rightarrow> world" where
  "rmSync E p recursive w =
     journal (RemovedPath p)
       (w\<lparr>fs := (\<lambda>q. if q = p \<or> (recursive \<and> path_within E p q) then None else fs w q)\<rparr>)"

text \<open>A write stream on a path creates the file; the bytes written are its content.\<close>

definition writeFile :: "string \<Rightarrow> bytes \<Rightarrow> world \<Rightarrow> world" where
  "writeFile p content w = w\<lparr>fs := (fs w)(p \<mapsto> File content)\<rparr>"

section \<open>cryptoUtils: the content hash\<close>

text \<open>
  \<open>calcFileHash(fileName)\<close>: the hexadecimal SHA-256 digest of the bytes of the file.
  A read stream on a path that is not a file emits an error that nothing handles.
\<close>

definition calcFileHash :: "env \<Rightarrow> string \<Rightarrow> world \<Rightarrow> string outcome \<times> world" where
  "calcFileHash E fileName w =
     (case fs w fileName of
        Some (File content) \<Rightarrow> (Resolved (concat (map byteToHex (sha256 E content))), w)
      | _ \<Rightarrow> (Threw ''read stream error'', w))"

section \<open>AttachInitVect\<close>

record AttachInitVect =
  initVect :: bytes
  attached :: bool

definition new_AttachInitVect :: "bytes \<Rightarrow> AttachInitVect" where
  "new_AttachInitVect iv = \<lparr>initVect = iv, attached = False\<rparr>"

text \<open>\<open>_transform(chunk)\<close>: the chunks pushed, and the stream afterwards.\<close>

definition AttachInitVect_transform :: "AttachInitVect \<Rightarrow> bytes \<Rightarrow> bytes list \<times> AttachInitVect" where
  "AttachInitVect_transform t chunk =
     (if \<not> attached t then ([initVect t, chunk], t\<lparr>attached := True\<rparr>) else ([chunk], t))"

text \<open>Piping a stream of chunks through the transform.\<close>

fun AttachInitVect_pipe :: "AttachInitVect \<Rightarrow> bytes list \<Rightarrow> bytes list" where
  "AttachInitVect_pipe t [] = []"
| "AttachInitVect_pipe t (chunk # chunks) =
     (case AttachInitVect_transform t chunk of (out, t') \<Rightarrow> out @ AttachInitVect_pipe t' chunks)"

section \<open>AESFileCryptor\<close>

record AESFileCryptor =
  cipherKey :: bytes

definition getCipherKey :: "env \<Rightarrow> string \<Rightarrow> bytes" where
  "getCipherKey E password = sha256 E (utf8_encode password)"

definition new_AESFileCryptor :: "env \<Rightarrow> string \<Rightarrow> AESFileCryptor" where
  "new_AESFileCryptor E password = \<lparr>cipherKey = getCipherKey E password\<rparr>"

text \<open>
  \<open>createCipheriv\<close> and \<open>createDecipheriv\<close> with \<open>aes256\<close> throw unless the key has 32
  bytes and the initialization vector is a buffer of 16 bytes.
\<close>

definition valid_key_iv :: "bytes \<Rightarrow> bytes option \<Rightarrow> bool" where
  "valid_key_iv key iv = (length key = 32 \<and> (case iv of None \<Rightarrow> False | Some v \<Rightarrow> length v = 16))"

text \<open>
  \<open>encryptStreamToFile(readStream, tgtFile)\<close>, for a read stream with the given content:
  \<open>readStream.pipe(gzip).pipe(cipher).pipe(attachInitVect).pipe(writeStream)\<close>; the
  promise resolves when the write stream finishes.
\<close>

definition encryptStreamToFile ::
  "env \<Rightarrow> AESFileCryptor \<Rightarrow> bytes \<Rightarrow> string \<Rightarrow> world \<Rightarrow> unit outcome \<times> world" where
  "encryptStreamToFile E this content tgtFile w =
     (case randomBytes 16 (rnd w) of (iv, r') \<Rightarrow>
        let w1 = w\<lparr>rnd := r'\<rparr> in
        if \<not> valid_key_iv (cipherKey this) (Some iv) then (Threw ''createCipheriv'', w1)
        else
          let chunks = cipher E (cipherKey this) iv (gzip E content);
              written = AttachInitVect_pipe (new_AttachInitVect iv) chunks
          in (Resolved (), writeFile tgtFile (concat written) w1))"

text \<open>\<open>#fileExists(file)\<close> logs a missing file.\<close>

definition fileExists :: "string \<Rightarrow> world \<Rightarrow> bool \<times> world" where
  "fileExists file w =
     (if existsSync w file then (True, w)
      else (False, log (''File '' @ quoted file @ '' not found'') w))"

definition encryptFileToFile ::
  "env \<Rightarrow> AESFileCryptor \<Rightarrow> string \<Rightarrow> string \<Rightarrow> world \<Rightarrow> unit outcome \<times> world" where
  "encryptFileToFile E this srcFile tgtFile w =
     (case fileExists srcFile w of
        (True, w1) \<Rightarrow>
          (case fs w1 srcFile of
             Some (File content) \<Rightarrow>
               await (encryptStreamToFile E this content tgtFile w1)
                 (\<lambda>_ w2. (Resolved (), journal (EncryptedFile srcFile tgtFile) w2))
           | _ \<Rightarrow> (Threw ''read stream error'', w1))
      | (False, w1) \<Rightarrow> (Resolved (), w1))"

definition encryptJsonToFile ::
  "env \<Rightarrow> AESFileCryptor \<Rightarrow> entries \<Rightarrow> string \<Rightarrow> world \<Rightarrow> unit outcome \<times> world" where
  "encryptJsonToFile E this json tgtFile w =
     await (encryptStreamToFile E this (utf8_encode (JSON_stringify E json)) tgtFile w)
       (\<lambda>_ w1. (Resolved (), journal (EncryptedJson tgtFile) w1))"

text \<open>
  \<open>#getBytes(file, { end: 15 }, cb)\<close> hands the last chunk read to the callback: the
  first 16 bytes of the file or fewer, \<open>undefined\<close> for an empty file.
\<close>

definition getBytes :: "bytes \<Rightarrow> bytes option" where
  "getBytes content = (if content = [] then None else Some (take 16 content))"

text \<open>
  \<open>decryptFileToStream(srcFile, writeStream)\<close>: the bytes delivered to the write
  stream, and the promise. The promise resolves at once for a source that does not
  exist, and otherwise when the write stream finishes, which takes that the decipher and
  the unzip stream both end: an error of the decipher is logged, an error of the unzip
  stream is swallowed, and neither ends the write stream.
\<close>

definition decryptFileToStream ::
  "env \<Rightarrow> AESFileCryptor \<Rightarrow> string \<Rightarrow> world \<Rightarrow> (bytes \<times> unit outcome) \<times> world" where
  "decryptFileToStream E this srcFile w =
     (if existsSync w srcFile then
        (case fs w srcFile of
           Some (File content) \<Rightarrow>
             let iv = getBytes content in
             if \<not> valid_key_iv (cipherKey this) iv then (([], Threw ''createDecipheriv''), w)
             else
               (case decipher E (cipherKey this) (the iv) (drop 16 content) of
                  (gz, True) \<Rightarrow>
                    (case unzip E gz True of
                       (out, True) \<Rightarrow> ((out, Resolved ()), w)
                     | (out, False) \<Rightarrow> ((out, Pending), w))
                | (gz, False) \<Rightarrow>
                    ((fst (unzip E gz False), Pending), log ''Incorrect password'' w))
         | _ \<Rightarrow> (([], Threw ''read stream error''), w))
      else (([], Resolved ()), w))"

text \<open>
  \<open>decryptFileToFile(srcFile, tgtFile)\<close>: the write stream on the target creates the
  file, whatever is delivered.
\<close>

definition decryptFileToFile ::
  "env \<Rightarrow> AESFileCryptor \<Rightarrow> string \<Rightarrow> string \<Rightarrow> world \<Rightarrow> unit outcome \<times> world" where
  "decryptFileToFile E this srcFile tgtFile w =
     (case decryptFileToStream E this srcFile (writeFile tgtFile [] w) of
        ((delivered, res), w1) \<Rightarrow> (res, writeFile tgtFile delivered w1))"

text \<open>
  \<open>decryptFileToJson(srcFile)\<close>: \<open>data && JSON.parse(data)\<close>, where \<open>data\<close> is the
  text that the \<open>StringWritable\<close> collected. For no data the result is the empty string
  itself: \<open>None\<close> here, the value that carries no entries.
\<close>

definition decryptFileToJson ::
  "env \<Rightarrow> AESFileCryptor \<Rightarrow> string \<Rightarrow> world \<Rightarrow> entries option outcome \<times> world" where
  "decryptFileToJson E this srcFile w =
     (case decryptFileToStream E this srcFile w of
        ((delivered, res), w1) \<Rightarrow>
          await (res, w1) (\<lambda>_ w2.
            let data = utf8_decode delivered in
            if data = [] then (Resolved None, w2)
            else (case JSON_parse E data of
                    None \<Rightarrow> (Threw ''JSON.parse'', w2)
                  | Some json \<Rightarrow> (Resolved (Some json), w2))))"

section \<open>FSDirectory\<close>

record FSDirectory =
  defaultFileName :: string
  dirents :: "dirent list"
  files :: "fileobj list"

definition new_FSDirectory :: "world \<Rightarrow> FSDirectory \<times> world" where
  "new_FSDirectory w =
     (case getNilUuid (rnd w) of (nil, r') \<Rightarrow>
        (\<lparr>defaultFileName = nil, dirents = [], files = []\<rparr>, w\<lparr>rnd := r'\<rparr>))"

definition getEntries :: "FSDirectory \<Rightarrow> entries" where
  "getEntries this = \<lparr>e_dirents = dirents this, e_files = files this\<rparr>"

definition getObsoleteDirents :: "FSDirectory \<Rightarrow> FSDirectory \<Rightarrow> dirent list" where
  "getObsoleteDirents this directory =
     filter (\<lambda>dirent. \<not> list_ex (\<lambda>e. d_path e = d_path dirent \<and> d_fileId e = d_fileId dirent)
                          (dirents this))
       (dirents directory)"

definition equals :: "env \<Rightarrow> FSDirectory \<Rightarrow> dirent list \<Rightarrow> bool" where
  "equals E this ds = (JSON_stringify_dirents E ds = JSON_stringify_dirents E (dirents this))"

definition findDirent :: "FSDirectory \<Rightarrow> string \<Rightarrow> dirent option" where
  "findDirent this p = find (\<lambda>dirent. d_path dirent = p) (dirents this)"

text \<open>
  \<open>addEntry(path, fileId, file)\<close>: the dirent gets a \<open>fileId\<close> only for a truthy one,
  the file is pushed when there is one.
\<close>

definition addEntry :: "FSDirectory \<Rightarrow> string \<Rightarrow> string option \<Rightarrow> fileobj option \<Rightarrow> FSDirectory" where
  "addEntry this p fileId file =
     this\<lparr>dirents := dirents this @ [\<lparr>d_path = p, d_fileId = (if truthy fileId then fileId else None)\<rparr>],
          files := (case file of None \<Rightarrow> files this | Some f \<Rightarrow> files this @ [f])\<rparr>"

definition findFileById :: "FSDirectory \<Rightarrow> string \<Rightarrow> fileobj option" where
  "findFileById this fileId = find (\<lambda>file. f_fileId file = fileId) (files this)"

definition findFileByHash :: "FSDirectory \<Rightarrow> string \<Rightarrow> fileobj option" where
  "findFileByHash this fileHash = find (\<lambda>file. f_fileHash file = fileHash) (files this)"

definition getAesFileCryptorAndFile :: "env \<Rightarrow> FSDirectory \<Rightarrow> string \<Rightarrow> string \<Rightarrow> AESFileCryptor \<times> string" where
  "getAesFileCryptorAndFile E this encDir pwd =
     (new_AESFileCryptor E pwd, path_join E encDir (defaultFileName this))"

text \<open>
  \<open>loadEntries(encDir, pwd)\<close>: the keys of the decrypted object are copied onto the
  directory (none for the value without entries); the result is the directory afterwards
  and its entries.
\<close>

definition loadEntries ::
  "env \<Rightarrow> FSDirectory \<Rightarrow> string \<Rightarrow> string \<Rightarrow> world \<Rightarrow> (FSDirectory \<times> entries) outcome \<times> world" where
  "loadEntries E this encDir pwd w =
     (case getAesFileCryptorAndFile E this encDir pwd of (aesFileCryptor, srcFile) \<Rightarrow>
        await (decryptFileToJson E aesFileCryptor srcFile w) (\<lambda>loaded w1.
          let this' = (case loaded of
                         None \<Rightarrow> this
                       | Some e \<Rightarrow> this\<lparr>dirents := e_dirents e, files := e_files e\<rparr>)
          in (Resolved (this', getEntries this'), w1)))"

definition saveToFile :: "env \<Rightarrow> FSDirectory \<Rightarrow> string \<Rightarrow> string \<Rightarrow> world \<Rightarrow> unit outcome \<times> world" where
  "saveToFile E this encDir pwd w =
     (if dirents this \<noteq> [] then
        (case getAesFileCryptorAndFile E this encDir pwd of (aesFileCryptor, tgtFile) \<Rightarrow>
           encryptJsonToFile E aesFileCryptor (getEntries this) tgtFile w)
      else (Resolved (), w))"

section \<open>CryptDir\<close>

record CryptDir =
  srcDir :: string
  encDir :: string
  fsDirectory :: FSDirectory

definition defaultEncDir :: string where
  "defaultEncDir = ''.cryptdir''"

definition defaultNameFilters :: "string list" where
  "defaultNameFilters = [''.~lock.'']"

text \<open>\<open>new CryptDir(srcDir, encDir)\<close>; the field \<open>fsDirectory\<close> is a new \<open>FSDirectory\<close>.\<close>

definition new_CryptDir :: "env \<Rightarrow> string \<Rightarrow> string option \<Rightarrow> world \<Rightarrow> CryptDir \<times> world" where
  "new_CryptDir E src enc w =
     (case new_FSDirectory w of (d, w1) \<Rightarrow>
        (\<lparr>srcDir = src,
          encDir = (if truthy enc then the enc else path_join E src defaultEncDir),
          fsDirectory = d\<rparr>, w1))"

definition getEncFilePath :: "env \<Rightarrow> CryptDir \<Rightarrow> string \<Rightarrow> string" where
  "getEncFilePath E this fileId = path_join E (encDir this) fileId"

definition getDirentFullName :: "env \<Rightarrow> src_dirent \<Rightarrow> string" where
  "getDirentFullName E d = path_join E (sd_path d) (sd_name d)"

definition filterDirentByName :: "src_dirent \<Rightarrow> bool" where
  "filterDirentByName d = list_ex (\<lambda>nameFilter. prefix nameFilter (sd_name d)) defaultNameFilters"

text \<open>
  \<open>Array.prototype.sort(compare)\<close> is stable; for a consistent comparison it yields
  what this insertion sort yields.
\<close>

fun insert_cmp :: "('a \<Rightarrow> 'a \<Rightarrow> int) \<Rightarrow> 'a \<Rightarrow> 'a list \<Rightarrow> 'a list" where
  "insert_cmp cmp x [] = [x]"
| "insert_cmp cmp x (y # ys) = (if cmp x y \<le> 0 then x # y # ys else y # insert_cmp cmp x ys)"

definition Array_sort :: "('a \<Rightarrow> 'a \<Rightarrow> int) \<Rightarrow> 'a list \<Rightarrow> 'a list" where
  "Array_sort cmp xs = foldr (insert_cmp cmp) xs []"

text \<open>\<open>#getSrcDirents()\<close>: \<open>undefined\<close> (here \<open>None\<close>) when the source directory is missing.\<close>

definition getSrcDirents :: "env \<Rightarrow> CryptDir \<Rightarrow> world \<Rightarrow> src_dirent list option" where
  "getSrcDirents E this w =
     (if existsSync w (srcDir this) then
        Some (filter
          (\<lambda>dirent. \<not> prefix (encDir this) (getDirentFullName E dirent) \<and> \<not> filterDirentByName dirent)
          (Array_sort
            (\<lambda>a b. localeCompare E (getDirentFullName E a) (getDirentFullName E b))
            (readdirSync E (fs w) (srcDir this))))
      else None)"

definition mkdirSyncWithCheck :: "string \<Rightarrow> world \<Rightarrow> bool \<times> world" where
  "mkdirSyncWithCheck p w = (if \<not> existsSync w p then (True, mkdirSync p w) else (False, w))"

definition rmSyncWithCheck :: "env \<Rightarrow> string \<Rightarrow> bool \<Rightarrow> world \<Rightarrow> bool \<times> world" where
  "rmSyncWithCheck E p recursive w =
     (if existsSync w p then (True, rmSync E p recursive w) else (False, w))"

definition rmSyncRecWithCheck :: "env \<Rightarrow> string \<Rightarrow> world \<Rightarrow> bool \<times> world" where
  "rmSyncRecWithCheck E p w = rmSyncWithCheck E p True w"

definition logDirentProc :: "string \<Rightarrow> bool \<Rightarrow> string \<Rightarrow> world \<Rightarrow> world" where
  "logDirentProc p isDir proc w =
     log (proc @ '' '' @ (if isDir then ''directory'' else ''file'') @ '' '' @ quoted p) w"

text \<open>
  \<open>#getFileData(currDirectory, fileHash)\<close>: \<open>{ exists: true, ...file }\<close> for a file of
  the current directory with this hash, else \<open>{ fileId: getUuid(), pwd: generatePwd() }\<close>.
\<close>

definition getFileData :: "FSDirectory \<Rightarrow> string \<Rightarrow> world \<Rightarrow> (bool \<times> string \<times> string) \<times> world" where
  "getFileData currDirectory fileHash w =
     (case findFileByHash currDirectory fileHash of
        Some file \<Rightarrow> ((True, f_fileId file, f_pwd file), w)
      | None \<Rightarrow>
          (case getUuid None (rnd w) of (fileId, r1) \<Rightarrow>
             (case generatePwd None None r1 of (pwd, r2) \<Rightarrow>
                ((False, fileId, pwd), w\<lparr>rnd := r2\<rparr>))))"

text \<open>
  \<open>#encryptFile(fullName, currDirectory)\<close>: the array \<open>[fileId, file]\<close> or \<open>[fileId]\<close>
  is the pair of its two optional elements.
\<close>

definition encryptFile ::
  "env \<Rightarrow> CryptDir \<Rightarrow> string \<Rightarrow> FSDirectory \<Rightarrow> world
     \<Rightarrow> (string option \<times> fileobj option) outcome \<times> world" where
  "encryptFile E this fullName currDirectory w =
     await (calcFileHash E fullName w) (\<lambda>fileHash w1.
       (case findFileByHash (fsDirectory this) fileHash of
          None \<Rightarrow>
            (case getFileData currDirectory fileHash w1 of ((found, fileId, pwd), w2) \<Rightarrow>
               await
                 (if \<not> found then
                    encryptFileToFile E (new_AESFileCryptor E pwd) fullName
                      (getEncFilePath E this fileId) w2
                  else (Resolved (), w2))
                 (\<lambda>_ w3. (Resolved (Some fileId,
                             Some \<lparr>f_fileId = fileId, f_fileHash = fileHash, f_pwd = pwd\<rparr>), w3)))
        | Some file \<Rightarrow> (Resolved (Some (f_fileId file), None), w1)))"

definition logDirentEncryption ::
  "string \<Rightarrow> bool \<Rightarrow> string option \<times> fileobj option \<Rightarrow> FSDirectory \<Rightarrow> world \<Rightarrow> world" where
  "logDirentEncryption p isDir fileParams currDirectory w =
     (let fileId = fst fileParams;
          dirent = findDirent currDirectory p
      in case dirent of
           None \<Rightarrow> logDirentProc p isDir ''Added'' w
         | Some d \<Rightarrow> if d_fileId d \<noteq> fileId then logDirentProc p isDir ''Updated'' w else w)"

definition encryptDirent ::
  "env \<Rightarrow> FSDirectory \<Rightarrow> src_dirent \<Rightarrow> CryptDir \<Rightarrow> world \<Rightarrow> unit outcome \<times> CryptDir \<times> world" where
  "encryptDirent E currDirectory dirent this w =
     (let fullName = path_join E (sd_path dirent) (sd_name dirent);
          relativePath = getRelativePath (srcDir this) fullName;
          isDirectory = sd_isDirectory dirent
      in case (if \<not> isDirectory then encryptFile E this fullName currDirectory w
               else (Resolved (None, None), w)) of
           (Resolved fileParams, w1) \<Rightarrow>
             (Resolved (),
              this\<lparr>fsDirectory :=
                     addEntry (fsDirectory this) relativePath (fst fileParams) (snd fileParams)\<rparr>,
              logDirentEncryption relativePath isDirectory fileParams currDirectory w1)
         | (Pending, w1) \<Rightarrow> (Pending, this, w1)
         | (Threw e, w1) \<Rightarrow> (Threw e, this, w1))"

text \<open>The loop \<open>for (const dirent of srcDirents) await this.#encryptDirent(...)\<close>.\<close>

fun encryptDirents ::
  "env \<Rightarrow> FSDirectory \<Rightarrow> src_dirent list \<Rightarrow> CryptDir \<Rightarrow> world \<Rightarrow> unit outcome \<times> CryptDir \<times> world" where
  "encryptDirents E currDirectory [] this w = (Resolved (), this, w)"
| "encryptDirents E currDirectory (dirent # rest) this w =
     (case encryptDirent E currDirectory dirent this w of
        (Resolved _, this', w') \<Rightarrow> encryptDirents E currDirectory rest this' w'
      | (Pending, s) \<Rightarrow> (Pending, s)
      | (Threw e, s) \<Rightarrow> (Threw e, s))"

text \<open>The body of the loop of \<open>#removeObsoleteDirents\<close>, and the loop.\<close>

definition removeObsoleteDirent :: "env \<Rightarrow> CryptDir \<Rightarrow> dirent \<Rightarrow> world \<Rightarrow> world" where
  "removeObsoleteDirent E this dirent w =
     (let p = d_path dirent;
          fileId = d_fileId dirent;
          isDir = \<not> truthy fileId;
          w1 = (if truthy fileId \<and> findFileById (fsDirectory this) (the fileId) = None
                then snd (rmSyncWithCheck E (getEncFilePath E this (the fileId)) False w)
                else w)
      in if isDir \<or> findDirent (fsDirectory this) p = None
         then logDirentProc p isDir ''Removed'' w1 else w1)"

definition removeObsoleteDirents :: "env \<Rightarrow> CryptDir \<Rightarrow> FSDirectory \<Rightarrow> world \<Rightarrow> world" where
  "removeObsoleteDirents E this currDirectory w =
     fold (removeObsoleteDirent E this) (getObsoleteDirents (fsDirectory this) currDirectory) w"

text \<open>
  \<open>#loadDecEntries(masterPwd, fsDirectory)\<close> loads into the given directory, or into
  \<open>this.fsDirectory\<close> when none is given; the result is \<open>this\<close> afterwards, the
  directory loaded and its entries.
\<close>

definition loadDecEntries ::
  "env \<Rightarrow> CryptDir \<Rightarrow> string \<Rightarrow> FSDirectory option \<Rightarrow> world
     \<Rightarrow> (CryptDir \<times> FSDirectory \<times> entries) outcome \<times> world" where
  "loadDecEntries E this masterPwd fsDirectory_arg w =
     (case fsDirectory_arg of
        Some d \<Rightarrow>
          await (loadEntries E d (encDir this) masterPwd w)
            (\<lambda>(d', es) w1. (Resolved (this, d', es), w1))
      | None \<Rightarrow>
          await (loadEntries E (fsDirectory this) (encDir this) masterPwd w)
            (\<lambda>(d', es) w1. (Resolved (this\<lparr>fsDirectory := d'\<rparr>, d', es), w1)))"

text \<open>\<open>encrypt(masterPwd)\<close>.\<close>

definition encrypt :: "env \<Rightarrow> CryptDir \<Rightarrow> string \<Rightarrow> world \<Rightarrow> unit outcome \<times> CryptDir \<times> world" where
  "encrypt E this masterPwd w =
     (case new_FSDirectory w of (currDirectory0, w0) \<Rightarrow>
     (case loadDecEntries E this masterPwd (Some currDirectory0) w0 of
        (Resolved (this1, currDirectory, entries), w1) \<Rightarrow>
          (case getSrcDirents E this1 w1 of
             Some srcDirents \<Rightarrow>
               if srcDirents \<noteq> [] then
                 (case encryptDirents E currDirectory srcDirents this1
                         (snd (mkdirSyncWithCheck (encDir this1) w1)) of
                    (Resolved _, this2, w3) \<Rightarrow>
                      let w4 = removeObsoleteDirents E this2 currDirectory w3 in
                      if \<not> equals E (fsDirectory this2) (e_dirents entries) then
                        (case saveToFile E (fsDirectory this2) (encDir this2) masterPwd w4 of
                           (res, w5) \<Rightarrow> (res, this2, w5))
                      else (Resolved (), this2, w4)
                  | (Pending, s) \<Rightarrow> (Pending, s)
                  | (Threw e, s) \<Rightarrow> (Threw e, s))
               else
                 (case rmSyncRecWithCheck E (encDir this1) w1 of
                    (True, w2) \<Rightarrow>
                      (Resolved (), this1, log (''Removed directory '' @ quoted (encDir this1)) w2)
                  | (False, w2) \<Rightarrow> (Resolved (), this1, w2))
           | None \<Rightarrow>
               (Resolved (), this1, log (''Invalid source directory '' @ quoted (srcDir this1)) w1))
      | (Pending, w1) \<Rightarrow> (Pending, this, w1)
      | (Threw e, w1) \<Rightarrow> (Threw e, this, w1)))"

text \<open>\<open>#decryptFile(file, exists, fullName, relativePath)\<close>.\<close>

definition decryptFile ::
  "env \<Rightarrow> CryptDir \<Rightarrow> fileobj \<Rightarrow> bool \<Rightarrow> string \<Rightarrow> string \<Rightarrow> world \<Rightarrow> unit outcome \<times> world" where
  "decryptFile E this file present fullName relativePath w =
     await
       (if \<not> present then (Resolved True, w)
        else await (calcFileHash E fullName w) (\<lambda>h w1. (Resolved (f_fileHash file \<noteq> h), w1)))
       (\<lambda>differs w1.
          if differs then
            await
              (decryptFileToFile E (new_AESFileCryptor E (f_pwd file))
                 (getEncFilePath E this (f_fileId file)) fullName w1)
              (\<lambda>_ w2. (Resolved (), log (''Decrypted file '' @ quoted relativePath) w2))
          else (Resolved (), w1))"

text \<open>The body of the loop of \<open>decrypt\<close>, and the loop.\<close>

definition decryptDirent :: "env \<Rightarrow> CryptDir \<Rightarrow> dirent \<Rightarrow> world \<Rightarrow> unit outcome \<times> world" where
  "decryptDirent E this dirent w =
     (let direntPath = d_path dirent;
          fileId = d_fileId dirent;
          fullName = path_join E (srcDir this) direntPath;
          relativePath = getRelativePath (srcDir this) fullName;
          present = existsSync w fullName
      in if truthy fileId then
           (case findFileById (fsDirectory this) (the fileId) of
              Some file \<Rightarrow> decryptFile E this file present fullName relativePath w
            | None \<Rightarrow> (Resolved (), w))
         else if \<not> present then
           (Resolved (), log (''Created directory '' @ quoted relativePath) (mkdirSync fullName w))
         else (Resolved (), w))"

fun decryptDirents :: "env \<Rightarrow> CryptDir \<Rightarrow> dirent list \<Rightarrow> world \<Rightarrow> unit outcome \<times> world" where
  "decryptDirents E this [] w = (Resolved (), w)"
| "decryptDirents E this (dirent # rest) w =
     await (decryptDirent E this dirent w) (\<lambda>_ w1. decryptDirents E this rest w1)"

text \<open>\<open>decrypt(masterPwd)\<close>.\<close>

definition decrypt :: "env \<Rightarrow> CryptDir \<Rightarrow> string \<Rightarrow> world \<Rightarrow> unit outcome \<times> CryptDir \<times> world" where
  "decrypt E this masterPwd w =
     (case loadDecEntries E this masterPwd None w of
        (Resolved (this1, _, entries), w1) \<Rightarrow>
          (case decryptDirents E this1 (e_dirents entries) w1 of (res, w2) \<Rightarrow> (res, this1, w2))
      | (Pending, w1) \<Rightarrow> (Pending, this, w1)
      | (Threw e, w1) \<Rightarrow> (Threw e, this, w1))"

section \<open>A small environment for concrete runs\<close>

text \<open>
  Concrete library functions, small enough to evaluate runs of the program on them: a
  digest of 32 bytes that depends on the length of its input, a compression that puts a
  marker byte in front, a cipher that shifts every byte by the last byte of the key and
  closes with a block holding that byte, paths joined with a backslash, a directory
  listing over three names, and a \<open>JSON\<close> that knows two manifests by the texts \<open>M\<close>
  and \<open>O\<close>.
\<close>

definition demo_sha256 :: "bytes \<Rightarrow> bytes" where
  "demo_sha256 b = replicate 31 0 @ [of_nat (length b)]"

definition demo_unzip :: "bytes \<Rightarrow> bool \<Rightarrow> bytes \<times> bool" where
  "demo_unzip b ended =
     (case b of [] \<Rightarrow> ([], False) | m # rest \<Rightarrow> if m = 0x1f then (rest, ended) else ([], False))"

definition demo_cipher :: "bytes \<Rightarrow> bytes \<Rightarrow> bytes \<Rightarrow> bytes list" where
  "demo_cipher k iv m = [map (\<lambda>x. x + last k) m, [last k]]"

definition demo_decipher :: "bytes \<Rightarrow> bytes \<Rightarrow> bytes \<Rightarrow> bytes \<times> bool" where
  "demo_decipher k iv c =
     (if c = [] then ([], False)
      else (map (\<lambda>x. x - last k) (butlast c), last c = last k))"

definition demo_join :: "string \<Rightarrow> string \<Rightarrow> string" where
  "demo_join a b = a @ [backslash] @ b"

definition demo_readdirSync :: "(string \<Rightarrow> node option) \<Rightarrow> string \<Rightarrow> src_dirent list" where
  "demo_readdirSync f d =
     List.map_filter
       (\<lambda>n. case f (demo_join d n) of
              None \<Rightarrow> None
            | Some nd \<Rightarrow> Some \<lparr>sd_name = n, sd_path = d, sd_isDirectory = (nd = Directory)\<rparr>)
       [''a'', ''b'', ''c'']"

text \<open>
  The manifest \<open>M\<close>: the files \<open>a\<close> with the bytes 1, 2, 3 and \<open>b\<close> with the byte 4.
  The manifest \<open>O\<close>: the file \<open>a\<close> alone, and both file objects.
\<close>

definition demo_files :: "fileobj list" where
  "demo_files =
     [\<lparr>f_fileId = ''ID1'', f_fileHash = concat (map byteToHex (demo_sha256 [1, 2, 3])), f_pwd = ''p''\<rparr>,
      \<lparr>f_fileId = ''ID2'', f_fileHash = concat (map byteToHex (demo_sha256 [4])), f_pwd = ''qq''\<rparr>]"

definition demo_manifest :: entries where
  "demo_manifest =
     \<lparr>e_dirents = [\<lparr>d_path = ''a'', d_fileId = Some ''ID1''\<rparr>, \<lparr>d_path = ''b'', d_fileId = Some ''ID2''\<rparr>],
      e_files = demo_files\<rparr>"

definition demo_manifest_O :: entries where
  "demo_manifest_O =
     \<lparr>e_dirents = [\<lparr>d_path = ''a'', d_fileId = Some ''ID1''\<rparr>], e_files = demo_files\<rparr>"

definition demo_env :: env where
  "demo_env =
     \<lparr>sha256 = demo_sha256,
      gzip = (\<lambda>b. 0x1f # b),
      unzip = demo_unzip,
      cipher = demo_cipher,
      decipher = demo_decipher,
      path_join = demo_join,
      path_within = (\<lambda>d p. prefix (d @ [backslash]) p),
      readdirSync = demo_readdirSync,
      localeCompare = (\<lambda>a b. int (length a) - int (length b)),
      JSON_stringify =
        (\<lambda>e. if e = demo_manifest then ''M'' else if e = demo_manifest_O then ''O'' else ''N''),
      JSON_stringify_dirents =
        (\<lambda>ds. concat (map (\<lambda>d. d_path d @ '':'' @ (case d_fileId d of None \<Rightarrow> '''' | Some i \<Rightarrow> i) @ '';'') ds)),
      JSON_parse =
        (\<lambda>s. if s = ''M'' then Some demo_manifest
             else if s = ''O'' then Some demo_manifest_O else None)\<rparr>"

text \<open>The blob of a content under a passphrase, with the initialization vector zero.\<close>

definition demo_blob :: "string \<Rightarrow> bytes \<Rightarrow> bytes" where
  "demo_blob pw content =
     replicate 16 0 @
     concat (demo_cipher (demo_sha256 (utf8_encode pw)) (replicate 16 0) (0x1f # content))"

definition demo_world :: world where
  "demo_world = \<lparr>fs = Map.empty, rnd = (\<lambda>i. 0), logged = [], effects = []\<rparr>"

text \<open>
  The source directory \<open>src\<close> and the store \<open>enc\<close>. The store of the master passphrase
  \<open>pw\<close> holds a manifest text and the blobs of the two files.
\<close>

definition demo_this :: CryptDir where
  "demo_this = fst (new_CryptDir demo_env ''src'' (Some ''enc'') demo_world)"

definition demo_sentinel :: string where
  "demo_sentinel = demo_join ''enc'' ''00000000000000000000000000000000''"

definition demo_store :: "string \<Rightarrow> string \<Rightarrow> node option" where
  "demo_store manifest_text =
     [''enc'' \<mapsto> Directory,
      demo_sentinel \<mapsto> File (demo_blob ''pw'' (utf8_encode manifest_text)),
      demo_join ''enc'' ''ID1'' \<mapsto> File (demo_blob ''p'' [1, 2, 3]),
      demo_join ''enc'' ''ID2'' \<mapsto> File (demo_blob ''qq'' [4])]"

text \<open>The directory of the previous snapshot after loading the manifest \<open>M\<close>.\<close>

definition demo_prev :: FSDirectory where
  "demo_prev =
     \<lparr>defaultFileName = ''00000000000000000000000000000000'',
      dirents = e_dirents demo_manifest, files = e_files demo_manifest\<rparr>"

definition demo_dirent_a :: src_dirent where
  "demo_dirent_a = \<lparr>sd_name = ''a'', sd_path = ''src'', sd_isDirectory = False\<rparr>"

text \<open>
  Worlds: a source with two files of the same content and no store yet; the source that
  the manifest \<open>M\<close> describes, with its store; the same store with a source where \<open>b\<close>
  now holds the bytes of \<open>a\<close>; the source with the file \<open>a\<close> alone and the
  store of the manifest \<open>O\<close>; an empty source and the store of \<open>M\<close>; and an empty
  destination with the store of \<open>M\<close>, whole or with the blob of \<open>a\<close> encrypted under
  another passphrase.
\<close>

definition w_first :: world where
  "w_first = demo_world\<lparr>fs :=
     [''src'' \<mapsto> Directory,
      demo_join ''src'' ''a'' \<mapsto> File [1, 2, 3],
      demo_join ''src'' ''b'' \<mapsto> File [1, 2, 3]]\<rparr>"

definition w_second :: world where
  "w_second = demo_world\<lparr>fs :=
     (demo_store ''M'')(''src'' \<mapsto> Directory,
        demo_join ''src'' ''a'' \<mapsto> File [1, 2, 3],
        demo_join ''src'' ''b'' \<mapsto> File [4])\<rparr>"


definition w_orphan :: world where
  "w_orphan = demo_world\<lparr>fs :=
     (demo_store ''O'')(''src'' \<mapsto> Directory, demo_join ''src'' ''a'' \<mapsto> File [1, 2, 3])\<rparr>"

definition w_empty :: world where
  "w_empty = demo_world\<lparr>fs := (demo_store ''M'')(''src'' \<mapsto> Directory)\<rparr>"

definition w_bad :: world where
  "w_bad = demo_world\<lparr>fs :=
     (demo_store ''M'')(''src'' \<mapsto> Directory,
        demo_join ''enc'' ''ID1'' \<mapsto> File (demo_blob ''wrong'' [1, 2, 3]))\<rparr>"

section \<open>Notions for the properties\<close>

text \<open>
  The identifiers of the file dirents of a list that no file of the manifest of
  \<open>this\<close> carries.
\<close>

definition unreferenced :: "CryptDir \<Rightarrow> dirent list \<Rightarrow> string set" where
  "unreferenced this ds =
     {i. i \<noteq> [] \<and> Some i \<in> d_fileId ` set ds \<and> i \<notin> f_fileId ` set (files (fsDirectory this))}"

text \<open>The content hash of a file with the given bytes.\<close>

definition fileHashOf :: "env \<Rightarrow> bytes \<Rightarrow> string" where
  "fileHashOf E content = concat (map byteToHex (sha256 E content))"

text \<open>
  The blob that \<open>encryptStreamToFile\<close> writes for a content when the random source is
  in the state \<open>r\<close>.
\<close>

definition written_blob :: "env \<Rightarrow> AESFileCryptor \<Rightarrow> bytes \<Rightarrow> rng \<Rightarrow> bytes" where
  "written_blob E aes content r =
     concat (AttachInitVect_pipe (new_AttachInitVect (rng_take 16 r))
       (cipher E (cipherKey aes) (rng_take 16 r) (gzip E content)))"

text \<open>The journal entries of encrypted objects (the manifest is the only one).\<close>

definition is_json :: "effect \<Rightarrow> bool" where
  "is_json e = (case e of EncryptedJson _ \<Rightarrow> True | _ \<Rightarrow> False)"

text \<open>
  What \<open>encrypt\<close> loads at its start into a new directory: the entries of the previous
  snapshot (none when the load does not resolve).
\<close>

definition loaded_entries :: "env \<Rightarrow> CryptDir \<Rightarrow> string \<Rightarrow> world \<Rightarrow> entries" where
  "loaded_entries E this masterPwd w =
     (case loadDecEntries E this masterPwd (Some (fst (new_FSDirectory w))) (snd (new_FSDirectory w)) of
        (Resolved (_, _, es), _) \<Rightarrow> es
      | _ \<Rightarrow> \<lparr>e_dirents = [], e_files = []\<rparr>)"

text \<open>
  The dirent that \<open>encrypt\<close> records for a source dirent, given the files of the
  manifest at the end of the run: the relative path, and for a file with the bytes
  \<open>content\<close> the identifier of the file object with its content hash (a falsy, empty
  identifier is not recorded).
\<close>

definition recorded_fileId :: "env \<Rightarrow> fileobj list \<Rightarrow> bytes \<Rightarrow> string option" where
  "recorded_fileId E fs_files content =
     (case find (\<lambda>f. f_fileHash f = fileHashOf E content) fs_files of
        None \<Rightarrow> None
      | Some f \<Rightarrow> if f_fileId f = [] then None else Some (f_fileId f))"


section \<open>Properties of cryptoUtils\<close>

lemma replaceAll_hyphen:
  "String_replaceAll ''-'' '''' s = filter (\<lambda>c. c \<noteq> CHR ''-'') s"
proof (induction s)
  case Nil
  show ?case by (simp add: String_replaceAll.simps)
next
  case (Cons c cs)
  show ?case
    using Cons by (subst String_replaceAll.simps) (auto simp: prefix_def)
qed

lemma upt_16: "[0..<16] = [0, 1, 2, 3, 4, 5, 6, 7, 8, 9, 10, 11, 12, 13, 14, 15::nat]"
  by code_simp

lemma hexDigit_cases: "n < 16 \<Longrightarrow> hexDigit n \<in> set ''0123456789abcdef''"
  unfolding hexDigit_def by (rule nth_mem) simp

lemma hexDigit_no_hyphen: "n < 16 \<Longrightarrow> hexDigit n \<noteq> CHR ''-''"
  using hexDigit_cases [of n] by auto

lemma length_byteToHex: "length (byteToHex b) = 2"
  by (simp add: byteToHex_def)

lemma filter_byteToHex: "filter (\<lambda>c. c \<noteq> CHR ''-'') (byteToHex b) = byteToHex b"
proof -
  have "unat b < 256" using unsigned_less [of b, where ?'a = nat] by simp
  then have "unat b div 16 < 16" by simp
  then show ?thesis
    by (simp add: byteToHex_def hexDigit_no_hyphen)
qed

lemma version_nibble: "unat (((x::byte) AND 0x0f) OR 0x40) div 16 = 4"
proof -
  have disj: "(x AND 0x0f) AND (0x40::byte) = 0"
    by (simp add: and.assoc)
  have "(x AND 0x0f) OR 0x40 = (x AND 0x0f) + 0x40"
    using word_plus_and_or [of "x AND 0x0f" "0x40"] disj by simp
  moreover have le: "unat (x AND 0x0f) \<le> 15"
    using word_and_le1 [of x 15] by (simp add: word_le_nat_alt)
  then have "unat ((x AND 0x0f) + 0x40) = unat (x AND 0x0f) + 64"
    by (simp add: unat_word_ariths)
  ultimately show ?thesis using le by simp
qed

lemma byteToHex_version: "byteToHex (((x::byte) AND 0x0f) OR 0x40) ! 0 = CHR ''4''"
  by (simp add: byteToHex_def version_nibble hexDigit_def)

lemma uuidv4_bytes:
  "fst (uuidv4 r) = uuid_stringify
     [r 0, r 1, r 2, r 3, r 4, r 5, (r 6 AND 0x0f) OR 0x40, r 7, (r 8 AND 0x3f) OR 0x80, r 9,
      r 10, r 11, r 12, r 13, r 14, r 15]"
  by (simp add: uuidv4_def randomBytes_def rng_take_def upt_16)

lemma getUuid_falsy:
  "\<not> truthy v \<Longrightarrow> fst (getUuid v r) = toUpperCase (
      byteToHex (r 0) @ byteToHex (r 1) @ byteToHex (r 2) @ byteToHex (r 3) @
      byteToHex (r 4) @ byteToHex (r 5) @ byteToHex ((r 6 AND 0x0f) OR 0x40) @ byteToHex (r 7) @
      byteToHex ((r 8 AND 0x3f) OR 0x80) @ byteToHex (r 9) @ byteToHex (r 10) @
      byteToHex (r 11) @ byteToHex (r 12) @ byteToHex (r 13) @ byteToHex (r 14) @
      byteToHex (r 15))"
proof -
  assume "\<not> truthy v"
  then have "fst (getUuid v r) = toUpperCase (String_replaceAll ''-'' '''' (fst (uuidv4 r)))"
    by (simp add: getUuid_def split_beta)
  then show ?thesis
    by (simp add: uuidv4_bytes replaceAll_hyphen uuid_stringify_def filter_byteToHex)
qed

lemma getUuid_version: "\<not> truthy v \<Longrightarrow> fst (getUuid v r) ! 12 = CHR ''4''"
  by (simp add: getUuid_falsy toUpperCase_def nth_append length_byteToHex byteToHex_version
      toUpperCase_char_def)


lemma getNilUuid_eq: "getNilUuid r = (''00000000000000000000000000000000'', r)"
  by (simp add: getNilUuid_def getUuid_def truthy_def NIL_UUID_def replaceAll_hyphen
      toUpperCase_def toUpperCase_char_def)

text \<open>
  C8. The sentinel identifier is the all-zero identifier of the scheme in canonical form
  (32 characters \<open>0\<close>: upper case, no hyphen, whatever the state of the random source),
  and no identifier that \<open>getUuid()\<close> generates, from any state of the random source,
  equals it: a generated identifier carries the version digit 4 at position 12.
\<close>

theorem C8_nil_uuid_never_generated:
  "fst (getNilUuid r) = replicate 32 (CHR ''0'') \<and>
   fst (getNilUuid r) = toUpperCase (String_replaceAll ''-'' '''' NIL_UUID) \<and>
   CHR ''-'' \<notin> set (fst (getNilUuid r)) \<and>
   fst (getUuid None r') \<noteq> fst (getNilUuid r) \<and>
   fst (getUuid (Some '''') r') \<noteq> fst (getNilUuid r)"
proof -
  have nil: "fst (getNilUuid r) = ''00000000000000000000000000000000''"
    by (simp add: getNilUuid_eq)
  have rep: "replicate 32 (CHR ''0'') = ''00000000000000000000000000000000''"
    by code_simp
  have canon: "fst (getNilUuid r) = toUpperCase (String_replaceAll ''-'' '''' NIL_UUID)"
    by (simp add: getNilUuid_def getUuid_def truthy_def NIL_UUID_def)
  have nil12: "fst (getNilUuid r) ! 12 = CHR ''0''"
    by (simp add: nil)
  have "fst (getUuid None r') ! 12 = CHR ''4''"
    by (rule getUuid_version) (simp add: truthy_def)
  with nil12 have new: "fst (getUuid None r') \<noteq> fst (getNilUuid r)"
    by auto
  have "fst (getUuid (Some '''') r') ! 12 = CHR ''4''"
    by (rule getUuid_version) (simp add: truthy_def)
  with nil12 have new': "fst (getUuid (Some '''') r') \<noteq> fst (getNilUuid r)"
    by auto
  have hyph: "CHR ''-'' \<notin> set (fst (getNilUuid r))"
    by (simp add: nil)
  from nil rep canon new new' hyph show ?thesis
    by simp
qed








section \<open>Properties of the relative path\<close>

lemma String_replace_absent:
  "\<not> sublist pat s \<Longrightarrow> String_replace pat rep s = s"
proof (induction s)
  case Nil
  then show ?case by auto
next
  case (Cons c cs)
  have "\<not> prefix pat (c # cs)"
    using Cons.prems prefix_imp_sublist by blast
  moreover have "\<not> sublist pat cs"
    using Cons.prems by (meson sublist_Cons_right)
  ultimately show ?case using Cons.IH by simp
qed

lemma String_replace_first:
  "(\<forall>i<length pre. \<not> prefix pat (drop i (pre @ pat @ post))) \<Longrightarrow>
   String_replace pat rep (pre @ pat @ post) = pre @ rep @ post"
proof (induction pre)
  case Nil
  show ?case
  proof (cases "pat @ post")
    case Nil
    then show ?thesis by simp
  next
    case (Cons a list)
    have "prefix pat (a # list)"
      using Cons by (metis prefixI)
    moreover have "drop (length pat) (a # list) = post"
      using Cons by (metis append_eq_conv_conj)
    ultimately show ?thesis using Cons by simp
  qed
next
  case (Cons c pre)
  have "\<not> prefix pat (c # pre @ pat @ post)"
    using Cons.prems [rule_format, of 0] by simp
  moreover have "\<forall>i<length pre. \<not> prefix pat (drop i (pre @ pat @ post))"
  proof (intro allI impI)
    fix i assume "i < length pre"
    then show "\<not> prefix pat (drop i (pre @ pat @ post))"
      using Cons.prems [rule_format, of "Suc i"] by simp
  qed
  ultimately show ?case using Cons.IH by simp
qed

text \<open>
  C10, as the claim states it: a full name joined to the source directory with a forward
  slash is not always returned unchanged. With the source directory \<open>/a\<close>, the POSIX
  full name of the file named \<open>a\c\<close> in the directory \<open>/a/b\<close> contains the source
  directory followed by a backslash, and the recorded path is \<open>/a/bc\<close>.
\<close>

theorem C10_posix_name_counterexample:
  "getRelativePath ''/a'' (''/a'' @ ''/'' @ ''b/a'' @ [backslash] @ ''c'') = ''/a/bc'' \<and>
   getRelativePath ''/a'' (''/a'' @ ''/'' @ ''b/a'' @ [backslash] @ ''c'')
     \<noteq> ''/a'' @ ''/'' @ ''b/a'' @ [backslash] @ ''c''"
  by (simp add: getRelativePath_def backslash_def)

text \<open>
  C10, amended. The recorded relative path is the full name with the first occurrence
  of the source directory followed by a backslash removed. A full name in which the source
  directory followed by a backslash does not occur, in particular every full name without
  a backslash, is returned unchanged; such a name that starts with the source directory
  and a forward slash keeps this absolute prefix in the recorded path.
\<close>

theorem C10_getRelativePath:
  "((\<forall>i<length pre. \<not> prefix (src @ [backslash]) (drop i (pre @ (src @ [backslash]) @ post)))
      \<longrightarrow> getRelativePath src (pre @ (src @ [backslash]) @ post) = pre @ post) \<and>
   (\<not> sublist (src @ [backslash]) fullName \<longrightarrow> getRelativePath src fullName = fullName) \<and>
   (backslash \<notin> set (src @ ''/'' @ rest) \<longrightarrow>
      getRelativePath src (src @ ''/'' @ rest) = src @ ''/'' @ rest \<and>
      prefix src (getRelativePath src (src @ ''/'' @ rest)))"
proof -
  have first: "getRelativePath src (pre @ (src @ [backslash]) @ post) = pre @ post"
    if "\<forall>i<length pre. \<not> prefix (src @ [backslash]) (drop i (pre @ (src @ [backslash]) @ post))"
    using String_replace_first [OF that, of "''''"] by (simp add: getRelativePath_def)
  have absent: "getRelativePath src s = s" if "\<not> sublist (src @ [backslash]) s" for s
    using String_replace_absent [OF that] by (simp add: getRelativePath_def)
  have nobs: "\<not> sublist (src @ [backslash]) s" if "backslash \<notin> set s" for s
  proof
    assume "sublist (src @ [backslash]) s"
    then have "set (src @ [backslash]) \<subseteq> set s"
      by (rule set_mono_sublist)
    with that show False by simp
  qed
  show ?thesis
    using first absent nobs [of "src @ ''/'' @ rest"] by auto
qed

text \<open>
  The amended statement at concrete names: a Windows full name loses the source directory
  and the backslash after it, a POSIX full name without a backslash is kept whole.
\<close>

theorem C10_getRelativePath_witness:
  "getRelativePath ''C:/src'' ('''' @ (''C:/src'' @ [backslash]) @ ''x.txt'') = '''' @ ''x.txt'' \<and>
   \<not> sublist (''/home/u'' @ [backslash]) ''/home/u/x.txt'' \<and>
   getRelativePath ''/home/u'' ''/home/u/x.txt'' = ''/home/u/x.txt'' \<and>
   backslash \<notin> set (''/home/u'' @ ''/'' @ ''x.txt'') \<and>
   getRelativePath ''/home/u'' (''/home/u'' @ ''/'' @ ''x.txt'') = ''/home/u'' @ ''/'' @ ''x.txt'' \<and>
   prefix ''/home/u'' (getRelativePath ''/home/u'' (''/home/u'' @ ''/'' @ ''x.txt''))"
proof -
  have nb: "backslash \<notin> set (''/home/u'' @ ''/'' @ ''x.txt'')"
    by (simp add: backslash_def)
  have ns: "\<not> sublist (''/home/u'' @ [backslash]) ''/home/u/x.txt''"
  proof
    assume "sublist (''/home/u'' @ [backslash]) ''/home/u/x.txt''"
    then have "set (''/home/u'' @ [backslash]) \<subseteq> set ''/home/u/x.txt''"
      by (rule set_mono_sublist)
    then show False by (simp add: backslash_def)
  qed
  show ?thesis
    using C10_getRelativePath [of "''''" "''C:/src''" "''x.txt''" "''/home/u/x.txt''" "''x.txt''"]
      C10_getRelativePath [of "''''" "''/home/u''" "''x.txt''" "''/home/u/x.txt''" "''x.txt''"]
      nb ns
    by simp
qed

section \<open>Properties of AESFileCryptor\<close>

lemma AttachInitVect_pipe_attached:
  "attached t \<Longrightarrow> AttachInitVect_pipe t chunks = chunks"
  by (induction chunks) (simp_all add: AttachInitVect_transform_def)

lemma AttachInitVect_pipe_new:
  "AttachInitVect_pipe (new_AttachInitVect iv) chunks = (if chunks = [] then [] else iv # chunks)"
  by (cases chunks)
    (simp_all add: new_AttachInitVect_def AttachInitVect_transform_def AttachInitVect_pipe_attached)

lemma length_randomBytes: "length (fst (randomBytes n r)) = n"
  by (simp add: randomBytes_def rng_take_def)

lemma encryptStreamToFile_blob:
  assumes key: "length (cipherKey aes) = 32"
    and chunks: "cipher E (cipherKey aes) (rng_take 16 (rnd w)) (gzip E content) \<noteq> []"
  shows "encryptStreamToFile E aes content tgt w =
           (Resolved (),
            writeFile tgt (rng_take 16 (rnd w) @
                concat (cipher E (cipherKey aes) (rng_take 16 (rnd w)) (gzip E content)))
              (w\<lparr>rnd := rng_drop 16 (rnd w)\<rparr>))"
  using key chunks
  by (simp add: encryptStreamToFile_def randomBytes_def valid_key_iv_def rng_take_def
      AttachInitVect_pipe_new Let_def)

lemma decryptFileToStream_blob:
  assumes key: "length (cipherKey aes) = 32"
    and iv: "length iv = 16"
    and blob: "fs w src = Some (File (iv @ ct))"
    and dec: "decipher E (cipherKey aes) iv ct = (gz, True)"
    and unz: "unzip E gz True = (out, True)"
  shows "decryptFileToStream E aes src w = ((out, Resolved ()), w)"
  using key iv blob dec unz
  by (auto simp: decryptFileToStream_def existsSync_def getBytes_def valid_key_iv_def Let_def)

text \<open>
  C1. When the digest has 32 bytes, unzipping a compressed stream gives the stream back,
  and the cipher emits at least one chunk and the decipher inverts it (for a key of 32
  and an initialization vector of 16 bytes), then for every content \<open>C\<close> and every
  passphrase \<open>P\<close>: encrypting \<open>C\<close> under \<open>P\<close> resolves and writes the blob made of
  the 16 random bytes of the initialization vector followed by the ciphertext of the
  compressed content under the key SHA-256(\<open>P\<close>), and decrypting that blob under \<open>P\<close>,
  which reads its first 16 bytes as the initialization vector, resolves and delivers
  exactly \<open>C\<close>.
\<close>

theorem C1_round_trip:
  assumes sha: "\<forall>x. length (sha256 E x) = 32"
    and zip: "\<forall>m. unzip E (gzip E m) True = (m, True)"
    and aes: "\<forall>k iv m. length k = 32 \<and> length iv = 16 \<longrightarrow>
                cipher E k iv m \<noteq> [] \<and> decipher E k iv (concat (cipher E k iv m)) = (m, True)"
  shows "\<exists>w1 iv. encryptStreamToFile E (new_AESFileCryptor E P) C tgt w = (Resolved (), w1) \<and>
           length iv = 16 \<and>
           fs w1 tgt = Some (File (iv @ concat (cipher E (sha256 E (utf8_encode P)) iv (gzip E C)))) \<and>
           (\<forall>w2. fs w2 tgt = fs w1 tgt \<longrightarrow>
              decryptFileToStream E (new_AESFileCryptor E P) tgt w2 = ((C, Resolved ()), w2))"
proof -
  let ?aes = "new_AESFileCryptor E P"
  let ?iv = "rng_take 16 (rnd w)"
  let ?ct = "concat (cipher E (cipherKey ?aes) ?iv (gzip E C))"
  let ?w1 = "writeFile tgt (?iv @ ?ct) (w\<lparr>rnd := rng_drop 16 (rnd w)\<rparr>)"
  have key: "length (cipherKey ?aes) = 32"
    using sha by (simp add: new_AESFileCryptor_def getCipherKey_def)
  have iv: "length ?iv = 16"
    by (simp add: rng_take_def)
  from aes key iv have ne: "cipher E (cipherKey ?aes) ?iv (gzip E C) \<noteq> []"
    and dec: "decipher E (cipherKey ?aes) ?iv ?ct = (gzip E C, True)"
    by blast+
  have enc: "encryptStreamToFile E ?aes C tgt w = (Resolved (), ?w1)"
    by (rule encryptStreamToFile_blob [OF key ne])
  have blob: "fs ?w1 tgt = Some (File (?iv @ ?ct))"
    by (simp add: writeFile_def)
  have dec_ok: "decryptFileToStream E ?aes tgt w2 = ((C, Resolved ()), w2)"
    if "fs w2 tgt = fs ?w1 tgt" for w2
  proof (rule decryptFileToStream_blob [OF key iv _ dec])
    show "fs w2 tgt = Some (File (?iv @ ?ct))" using that blob by simp
    show "unzip E (gzip E C) True = (C, True)" using zip by simp
  qed
  have key_eq: "cipherKey ?aes = sha256 E (utf8_encode P)"
    by (simp add: new_AESFileCryptor_def getCipherKey_def)
  show ?thesis
    using enc iv blob dec_ok unfolding key_eq by blast
qed

lemma demo_sha: "\<forall>x. length (sha256 demo_env x) = 32"
  by (simp add: demo_env_def demo_sha256_def)

lemma demo_zip: "\<forall>m. unzip demo_env (gzip demo_env m) True = (m, True)"
  by (simp add: demo_env_def demo_unzip_def)

lemma demo_aes: "\<forall>k iv m. length k = 32 \<and> length iv = 16 \<longrightarrow>
    cipher demo_env k iv m \<noteq> [] \<and>
    decipher demo_env k iv (concat (cipher demo_env k iv m)) = (m, True)"
  by (simp add: demo_env_def demo_decipher_def demo_cipher_def o_def)

text \<open>The round trip of three bytes in the small environment.\<close>

theorem C1_round_trip_witness:
  "fst (decryptFileToStream demo_env (new_AESFileCryptor demo_env ''pw'') ''store/A''
      (snd (encryptStreamToFile demo_env (new_AESFileCryptor demo_env ''pw'') [1, 2, 3] ''store/A''
              demo_world)))
   = ([1, 2, 3], Resolved ())"
proof -
  from C1_round_trip [OF demo_sha demo_zip demo_aes, of "''pw''" "[1, 2, 3]" "''store/A''" demo_world]
  obtain w1 where enc: "encryptStreamToFile demo_env (new_AESFileCryptor demo_env ''pw'') [1, 2, 3]
        ''store/A'' demo_world = (Resolved (), w1)"
    and dec_ok: "\<forall>w2. fs w2 ''store/A'' = fs w1 ''store/A'' \<longrightarrow>
        decryptFileToStream demo_env (new_AESFileCryptor demo_env ''pw'') ''store/A'' w2
          = (([1, 2, 3], Resolved ()), w2)"
    by blast
  from dec_ok have "decryptFileToStream demo_env (new_AESFileCryptor demo_env ''pw'') ''store/A'' w1
      = (([1, 2, 3], Resolved ()), w1)"
    by simp
  with enc show ?thesis by simp
qed

section \<open>Properties of FSDirectory\<close>

text \<open>
  C7. For a source path that does not exist, \<open>decryptFileToStream\<close> resolves without
  delivering a byte and leaves the world as it is, \<open>decryptFileToJson\<close> resolves with
  the value that carries no entries, and \<open>loadEntries\<close> on a store without the sentinel
  blob resolves and leaves the directory as it was: for a new \<open>FSDirectory\<close>, with
  empty \<open>dirents\<close> and \<open>files\<close>.
\<close>

theorem C7_absent_source:
  assumes absent: "\<not> existsSync w srcFile"
  shows "decryptFileToStream E aes srcFile w = (([], Resolved ()), w) \<and>
         decryptFileToJson E aes srcFile w = (Resolved None, w) \<and>
         (\<forall>d dir pwd. path_join E dir (defaultFileName d) = srcFile \<longrightarrow>
            loadEntries E d dir pwd w = (Resolved (d, getEntries d), w)) \<and>
         (\<forall>dir pwd w0. path_join E dir (defaultFileName (fst (new_FSDirectory w0))) = srcFile \<longrightarrow>
            (\<exists>d. loadEntries E (fst (new_FSDirectory w0)) dir pwd w
                   = (Resolved (d, \<lparr>e_dirents = [], e_files = []\<rparr>), w) \<and>
                 dirents d = [] \<and> files d = []))"
proof -
  have stream: "decryptFileToStream E a srcFile w = (([], Resolved ()), w)" for a
    using absent by (simp add: decryptFileToStream_def)
  have json: "decryptFileToJson E a srcFile w = (Resolved None, w)" for a
    by (simp add: decryptFileToJson_def stream await_def utf8_decode_def)
  have load: "loadEntries E d dir pwd w = (Resolved (d, getEntries d), w)"
    if "path_join E dir (defaultFileName d) = srcFile" for d dir pwd
    using that by (simp add: loadEntries_def getAesFileCryptorAndFile_def json await_def)
  have fresh: "dirents (fst (new_FSDirectory w0)) = [] \<and> files (fst (new_FSDirectory w0)) = []" for w0
    by (simp add: new_FSDirectory_def split_beta)
  show ?thesis
    using stream json load fresh by (auto simp: getEntries_def)
qed

text \<open>A store without the sentinel blob, in the small environment.\<close>

theorem C7_absent_source_witness:
  "decryptFileToStream demo_env (new_AESFileCryptor demo_env ''pw'')
      demo_sentinel demo_world = (([], Resolved ()), demo_world) \<and>
   decryptFileToJson demo_env (new_AESFileCryptor demo_env ''pw'')
      demo_sentinel demo_world = (Resolved None, demo_world) \<and>
   fst (loadEntries demo_env (fst (new_FSDirectory demo_world)) ''enc'' ''pw'' demo_world)
     = Resolved (fst (new_FSDirectory demo_world), \<lparr>e_dirents = [], e_files = []\<rparr>)"
proof -
  have absent: "\<not> existsSync demo_world demo_sentinel"
    by (simp add: existsSync_def demo_world_def)
  have name: "path_join demo_env ''enc'' (defaultFileName (fst (new_FSDirectory demo_world)))
      = demo_sentinel"
    by (simp add: new_FSDirectory_def getNilUuid_eq demo_env_def demo_sentinel_def)
  have fresh: "getEntries (fst (new_FSDirectory demo_world)) = \<lparr>e_dirents = [], e_files = []\<rparr>"
    by (simp add: new_FSDirectory_def getEntries_def split_beta)
  show ?thesis
    using C7_absent_source [OF absent, of demo_env "new_AESFileCryptor demo_env ''pw''"] name fresh
    by simp
qed

section \<open>Properties of CryptDir\<close>

lemma fs_log: "fs (log m w) = fs w"
  by (simp add: log_def)

lemma fs_logDirentProc: "fs (logDirentProc p isDir proc w) = fs w"
  by (simp add: logDirentProc_def fs_log)

lemma fs_rmSyncWithCheck:
  "fs (snd (rmSyncWithCheck E p False w)) = (fs w)(p := None)"
  by (auto simp: rmSyncWithCheck_def rmSync_def journal_def existsSync_def fun_eq_iff)

lemma findFileById_None:
  "findFileById this i = None \<longleftrightarrow> i \<notin> f_fileId ` set (files this)"
  by (auto simp: findFileById_def find_None_iff)

text \<open>Whether the step of the loop for an obsolete dirent removes its blob.\<close>

lemma fs_removeObsoleteDirent:
  "fs (removeObsoleteDirent E this d w) =
     (if truthy (d_fileId d) \<and> the (d_fileId d) \<notin> f_fileId ` set (files (fsDirectory this))
      then (fs w)(getEncFilePath E this (the (d_fileId d)) := None) else fs w)"
  by (simp add: removeObsoleteDirent_def Let_def fs_logDirentProc fs_rmSyncWithCheck
      findFileById_None)

lemma unreferenced_Cons:
  "unreferenced this (d # ds) =
     (if truthy (d_fileId d) \<and> the (d_fileId d) \<notin> f_fileId ` set (files (fsDirectory this))
      then insert (the (d_fileId d)) (unreferenced this ds) else unreferenced this ds)"
  by (cases "d_fileId d") (auto simp: unreferenced_def truthy_def)

lemma fs_fold_removeObsoleteDirent:
  "fs (fold (removeObsoleteDirent E this) ds w) =
     (\<lambda>q. if q \<in> getEncFilePath E this ` unreferenced this ds then None else fs w q)"
proof (induction ds arbitrary: w)
  case Nil
  show ?case by (simp add: unreferenced_def)
next
  case (Cons d ds)
  show ?case
    by (auto simp: Cons.IH fs_removeObsoleteDirent unreferenced_Cons fun_eq_iff)
qed

text \<open>
  C6. The obsolete entries are exactly the dirents of the previous snapshot whose pair of
  path and identifier does not occur among the dirents of the current manifest. Removing
  them deletes from the file system exactly the store paths of the obsolete file entries
  whose identifier no file of the current manifest carries, and nothing else; the step of
  the loop for one obsolete entry deletes its blob if and only if the entry has an
  identifier and no file of the current manifest carries it.
\<close>

theorem C6_obsolete_entries:
  "set (getObsoleteDirents cur prev) =
     {d \<in> set (dirents prev).
        \<not> (\<exists>e \<in> set (dirents cur). d_path e = d_path d \<and> d_fileId e = d_fileId d)} \<and>
   fs (removeObsoleteDirents E this prev w) =
     (\<lambda>q. if q \<in> getEncFilePath E this `
                 {i. i \<noteq> [] \<and>
                     Some i \<in> d_fileId ` set (getObsoleteDirents (fsDirectory this) prev) \<and>
                     i \<notin> f_fileId ` set (files (fsDirectory this))}
          then None else fs w q) \<and>
   fs (removeObsoleteDirent E this d w) =
     (if truthy (d_fileId d) \<and> the (d_fileId d) \<notin> f_fileId ` set (files (fsDirectory this))
      then (fs w)(getEncFilePath E this (the (d_fileId d)) := None) else fs w)"
proof -
  have obs: "set (getObsoleteDirents cur prev) =
     {d \<in> set (dirents prev).
        \<not> (\<exists>e \<in> set (dirents cur). d_path e = d_path d \<and> d_fileId e = d_fileId d)}"
    by (auto simp: getObsoleteDirents_def list_ex_iff)
  have rm: "fs (removeObsoleteDirents E this prev w) =
     (\<lambda>q. if q \<in> getEncFilePath E this `
                 unreferenced this (getObsoleteDirents (fsDirectory this) prev)
          then None else fs w q)"
    by (simp add: removeObsoleteDirents_def fs_fold_removeObsoleteDirent)
  show ?thesis
    using obs rm fs_removeObsoleteDirent [of E this d w] unfolding unreferenced_def by simp
qed

lemma log_simps:
  "fs (log m w) = fs w" "rnd (log m w) = rnd w" "effects (log m w) = effects w"
  "logged (log m w) = logged w @ [m]"
  by (simp_all add: log_def)

lemma logDirentProc_simps:
  "fs (logDirentProc p isDir proc w) = fs w"
  "rnd (logDirentProc p isDir proc w) = rnd w"
  "effects (logDirentProc p isDir proc w) = effects w"
  by (simp_all add: logDirentProc_def log_simps)

lemma logDirentEncryption_simps:
  "fs (logDirentEncryption p isDir fp cur w) = fs w"
  "rnd (logDirentEncryption p isDir fp cur w) = rnd w"
  "effects (logDirentEncryption p isDir fp cur w) = effects w"
  by (simp_all add: logDirentEncryption_def Let_def logDirentProc_simps split: option.split)

lemma calcFileHash_File:
  "fs w fileName = Some (File content) \<Longrightarrow>
     calcFileHash E fileName w = (Resolved (fileHashOf E content), w)"
  by (simp add: calcFileHash_def fileHashOf_def)

lemma encryptFile_session:
  assumes "fs w fullName = Some (File content)"
    and "findFileByHash (fsDirectory this) (fileHashOf E content) = Some f"
  shows "encryptFile E this fullName cur w = (Resolved (Some (f_fileId f), None), w)"
  using assms by (simp add: encryptFile_def calcFileHash_File await_def)

lemma encryptFile_carry:
  assumes "fs w fullName = Some (File content)"
    and "findFileByHash (fsDirectory this) (fileHashOf E content) = None"
    and "findFileByHash cur (fileHashOf E content) = Some f"
  shows "encryptFile E this fullName cur w =
           (Resolved (Some (f_fileId f),
              Some \<lparr>f_fileId = f_fileId f, f_fileHash = fileHashOf E content, f_pwd = f_pwd f\<rparr>), w)"
  using assms by (simp add: encryptFile_def calcFileHash_File await_def getFileData_def)

lemma encryptStreamToFile_valid:
  assumes "length (cipherKey aes) = 32"
  shows "encryptStreamToFile E aes content tgt w =
           (Resolved (), writeFile tgt (written_blob E aes content (rnd w))
              (w\<lparr>rnd := rng_drop 16 (rnd w)\<rparr>))"
  using assms
  by (simp add: encryptStreamToFile_def randomBytes_def valid_key_iv_def rng_take_def Let_def
      written_blob_def)

lemma encryptFile_fresh:
  assumes src: "fs w fullName = Some (File content)"
    and s: "findFileByHash (fsDirectory this) (fileHashOf E content) = None"
    and c: "findFileByHash cur (fileHashOf E content) = None"
    and uuid: "getUuid None (rnd w) = (fileId, r1)"
    and pwd: "generatePwd None None r1 = (pw, r2)"
    and key: "length (sha256 E (utf8_encode pw)) = 32"
  shows "encryptFile E this fullName cur w =
           (Resolved (Some fileId,
              Some \<lparr>f_fileId = fileId, f_fileHash = fileHashOf E content, f_pwd = pw\<rparr>),
            journal (EncryptedFile fullName (getEncFilePath E this fileId))
              (writeFile (getEncFilePath E this fileId)
                 (written_blob E (new_AESFileCryptor E pw) content r2)
                 (w\<lparr>rnd := rng_drop 16 r2\<rparr>)))"
proof -
  let ?aes = "new_AESFileCryptor E pw"
  let ?tgt = "getEncFilePath E this fileId"
  have k: "length (cipherKey ?aes) = 32"
    using key by (simp add: new_AESFileCryptor_def getCipherKey_def)
  have "encryptFileToFile E ?aes fullName ?tgt (w\<lparr>rnd := r2\<rparr>) =
      (Resolved (), journal (EncryptedFile fullName ?tgt)
         (writeFile ?tgt (written_blob E ?aes content r2) (w\<lparr>rnd := rng_drop 16 r2\<rparr>)))"
    using src by (simp add: encryptFileToFile_def fileExists_def existsSync_def await_def
        encryptStreamToFile_valid [OF k])
  then show ?thesis
    using src s c uuid pwd
    by (simp add: encryptFile_def calcFileHash_File await_def getFileData_def)
qed

lemma addEntry_files:
  "files (addEntry d p i None) = files d"
  "files (addEntry d p i (Some f)) = files d @ [f]"
  by (simp_all add: addEntry_def)

lemma encryptDirent_file:
  assumes "\<not> sd_isDirectory d"
    and "encryptFile E this (path_join E (sd_path d) (sd_name d)) cur w = (Resolved fp, w1)"
  shows "encryptDirent E cur d this w =
     (Resolved (),
      this\<lparr>fsDirectory := addEntry (fsDirectory this)
          (getRelativePath (srcDir this) (path_join E (sd_path d) (sd_name d))) (fst fp) (snd fp)\<rparr>,
      logDirentEncryption (getRelativePath (srcDir this) (path_join E (sd_path d) (sd_name d)))
        False fp cur w1)"
  using assms by (simp add: encryptDirent_def Let_def)

lemma encryptDirent_effects_changed:
  assumes nd: "\<not> sd_isDirectory d"
    and src: "fs w (path_join E (sd_path d) (sd_name d)) = Some (File content)"
    and run: "encryptDirent E cur d this w = (res, this', w')"
    and ch: "effects w' \<noteq> effects w"
  shows "findFileByHash (fsDirectory this) (fileHashOf E content) = None \<and>
         findFileByHash cur (fileHashOf E content) = None"
proof (rule ccontr)
  assume neg: "\<not> ?thesis"
  let ?full = "path_join E (sd_path d) (sd_name d)"
  have "\<exists>fp. encryptFile E this ?full cur w = (Resolved fp, w)"
  proof (cases "findFileByHash (fsDirectory this) (fileHashOf E content)")
    case (Some f)
    then show ?thesis using encryptFile_session [OF src Some] by blast
  next
    case None
    with neg obtain f where "findFileByHash cur (fileHashOf E content) = Some f" by auto
    then show ?thesis using encryptFile_carry [OF src None] by blast
  qed
  then obtain fp where "encryptFile E this ?full cur w = (Resolved fp, w)" by blast
  from encryptDirent_file [OF nd this] run have "effects w' = effects w"
    by (auto simp: logDirentEncryption_simps)
  with ch show False by simp
qed

text \<open>
  C5. For a source file (its content hash is that of the bytes the file holds), the step
  of the loop of \<open>encrypt\<close> does one of three things. When the hash is not in the
  session manifest but a file of the previous snapshot has it, nothing is encrypted (the
  journal, the file system and the random source stay as they are) and the recorded file
  object carries the identifier and the secret of the snapshot's file. When neither has
  the hash, the recorded file object carries an identifier and a secret fresh from the
  random source, and the file is encrypted into the store under that identifier. When the
  session manifest has the hash, nothing is encrypted and no file object is recorded.
  So a file is encrypted only when neither the session manifest nor the snapshot has its
  hash.
\<close>

theorem C5_carry_forward:
  assumes nd: "\<not> sd_isDirectory d"
    and src: "fs w (path_join E (sd_path d) (sd_name d)) = Some (File content)"
  shows
   "(findFileByHash (fsDirectory this) (fileHashOf E content) = None \<and>
     findFileByHash cur (fileHashOf E content) = Some f \<longrightarrow>
       (\<exists>this' w'. encryptDirent E cur d this w = (Resolved (), this', w') \<and>
          files (fsDirectory this') = files (fsDirectory this) @
            [\<lparr>f_fileId = f_fileId f, f_fileHash = fileHashOf E content, f_pwd = f_pwd f\<rparr>] \<and>
          effects w' = effects w \<and> fs w' = fs w \<and> rnd w' = rnd w)) \<and>
    (findFileByHash (fsDirectory this) (fileHashOf E content) = None \<and>
     findFileByHash cur (fileHashOf E content) = None \<and>
     getUuid None (rnd w) = (fileId, r1) \<and> generatePwd None None r1 = (pw, r2) \<and>
     length (sha256 E (utf8_encode pw)) = 32 \<longrightarrow>
       (\<exists>this' w'. encryptDirent E cur d this w = (Resolved (), this', w') \<and>
          files (fsDirectory this') = files (fsDirectory this) @
            [\<lparr>f_fileId = fileId, f_fileHash = fileHashOf E content, f_pwd = pw\<rparr>] \<and>
          effects w' = effects w @
            [EncryptedFile (path_join E (sd_path d) (sd_name d)) (getEncFilePath E this fileId)] \<and>
          fs w' = (fs w)(getEncFilePath E this fileId \<mapsto>
                    File (written_blob E (new_AESFileCryptor E pw) content r2)))) \<and>
    (findFileByHash (fsDirectory this) (fileHashOf E content) = Some f \<longrightarrow>
       (\<exists>this' w'. encryptDirent E cur d this w = (Resolved (), this', w') \<and>
          files (fsDirectory this') = files (fsDirectory this) \<and>
          effects w' = effects w \<and> fs w' = fs w \<and> rnd w' = rnd w)) \<and>
    (encryptDirent E cur d this w = (res, this1, w1) \<and> effects w1 \<noteq> effects w \<longrightarrow>
       findFileByHash (fsDirectory this) (fileHashOf E content) = None \<and>
       findFileByHash cur (fileHashOf E content) = None)"
proof (intro conjI impI)
  assume "findFileByHash (fsDirectory this) (fileHashOf E content) = None \<and>
          findFileByHash cur (fileHashOf E content) = Some f"
  then have "encryptFile E this (path_join E (sd_path d) (sd_name d)) cur w =
      (Resolved (Some (f_fileId f),
         Some \<lparr>f_fileId = f_fileId f, f_fileHash = fileHashOf E content, f_pwd = f_pwd f\<rparr>), w)"
    using encryptFile_carry [OF src] by blast
  from encryptDirent_file [OF nd this]
  show "\<exists>this' w'. encryptDirent E cur d this w = (Resolved (), this', w') \<and>
          files (fsDirectory this') = files (fsDirectory this) @
            [\<lparr>f_fileId = f_fileId f, f_fileHash = fileHashOf E content, f_pwd = f_pwd f\<rparr>] \<and>
          effects w' = effects w \<and> fs w' = fs w \<and> rnd w' = rnd w"
    by (simp add: logDirentEncryption_simps addEntry_files)
next
  assume a: "findFileByHash (fsDirectory this) (fileHashOf E content) = None \<and>
     findFileByHash cur (fileHashOf E content) = None \<and>
     getUuid None (rnd w) = (fileId, r1) \<and> generatePwd None None r1 = (pw, r2) \<and>
     length (sha256 E (utf8_encode pw)) = 32"
  from a encryptFile_fresh [OF src]
  have "encryptFile E this (path_join E (sd_path d) (sd_name d)) cur w =
           (Resolved (Some fileId,
              Some \<lparr>f_fileId = fileId, f_fileHash = fileHashOf E content, f_pwd = pw\<rparr>),
            journal (EncryptedFile (path_join E (sd_path d) (sd_name d)) (getEncFilePath E this fileId))
              (writeFile (getEncFilePath E this fileId)
                 (written_blob E (new_AESFileCryptor E pw) content r2)
                 (w\<lparr>rnd := rng_drop 16 r2\<rparr>)))"
    by blast
  from encryptDirent_file [OF nd this]
  show "\<exists>this' w'. encryptDirent E cur d this w = (Resolved (), this', w') \<and>
          files (fsDirectory this') = files (fsDirectory this) @
            [\<lparr>f_fileId = fileId, f_fileHash = fileHashOf E content, f_pwd = pw\<rparr>] \<and>
          effects w' = effects w @
            [EncryptedFile (path_join E (sd_path d) (sd_name d)) (getEncFilePath E this fileId)] \<and>
          fs w' = (fs w)(getEncFilePath E this fileId \<mapsto>
                    File (written_blob E (new_AESFileCryptor E pw) content r2))"
    by (simp add: logDirentEncryption_simps addEntry_files journal_def writeFile_def)
next
  assume "findFileByHash (fsDirectory this) (fileHashOf E content) = Some f"
  from encryptDirent_file [OF nd encryptFile_session [OF src this]]
  show "\<exists>this' w'. encryptDirent E cur d this w = (Resolved (), this', w') \<and>
          files (fsDirectory this') = files (fsDirectory this) \<and>
          effects w' = effects w \<and> fs w' = fs w \<and> rnd w' = rnd w"
    by (simp add: logDirentEncryption_simps addEntry_files)
next
  assume a: "encryptDirent E cur d this w = (res, this1, w1) \<and> effects w1 \<noteq> effects w"
  then show "findFileByHash (fsDirectory this) (fileHashOf E content) = None"
    using encryptDirent_effects_changed [OF nd src] by blast
  from a show "findFileByHash cur (fileHashOf E content) = None"
    using encryptDirent_effects_changed [OF nd src] by blast
qed

text \<open>
  The file \<open>a\<close> of the manifest \<open>M\<close>, unchanged: its identifier \<open>ID1\<close> and secret are
  carried forward and nothing is encrypted.
\<close>

theorem C5_carry_forward_witness:
  "fst (encryptDirent demo_env demo_prev demo_dirent_a demo_this w_second) = Resolved () \<and>
   files (fsDirectory (fst (snd (encryptDirent demo_env demo_prev demo_dirent_a demo_this w_second))))
     = [\<lparr>f_fileId = ''ID1'', f_fileHash = fileHashOf demo_env [1, 2, 3], f_pwd = ''p''\<rparr>] \<and>
   effects (snd (snd (encryptDirent demo_env demo_prev demo_dirent_a demo_this w_second))) = []"
proof -
  have nd: "\<not> sd_isDirectory demo_dirent_a"
    by code_simp
  have src: "fs w_second (path_join demo_env (sd_path demo_dirent_a) (sd_name demo_dirent_a))
      = Some (File [1, 2, 3])"
    by code_simp
  have s: "findFileByHash (fsDirectory demo_this) (fileHashOf demo_env [1, 2, 3]) = None"
    by code_simp
  have c: "findFileByHash demo_prev (fileHashOf demo_env [1, 2, 3]) = Some (hd demo_files)"
    by code_simp
  have f: "f_fileId (hd demo_files) = ''ID1''" "f_pwd (hd demo_files) = ''p''"
    by code_simp+
  have e: "files (fsDirectory demo_this) = []" "effects w_second = []"
    by code_simp+
  from C5_carry_forward [OF nd src, of demo_this demo_prev "hd demo_files"] s c
  obtain this' w' where
    "encryptDirent demo_env demo_prev demo_dirent_a demo_this w_second = (Resolved (), this', w')"
    "files (fsDirectory this') = files (fsDirectory demo_this) @
       [\<lparr>f_fileId = f_fileId (hd demo_files), f_fileHash = fileHashOf demo_env [1, 2, 3],
         f_pwd = f_pwd (hd demo_files)\<rparr>]"
    "effects w' = effects w_second"
    by blast
  then show ?thesis
    using f e by simp
qed

lemma journal_simps:
  "fs (journal e w) = fs w" "rnd (journal e w) = rnd w" "logged (journal e w) = logged w"
  "effects (journal e w) = effects w @ [e]"
  by (simp_all add: journal_def)

lemma writeFile_simps:
  "fs (writeFile p c w) = (fs w)(p \<mapsto> File c)" "rnd (writeFile p c w) = rnd w"
  "logged (writeFile p c w) = logged w" "effects (writeFile p c w) = effects w"
  by (simp_all add: writeFile_def)

lemma is_json_simps:
  "is_json (EncryptedJson t)" "\<not> is_json (EncryptedFile s t)" "\<not> is_json (RemovedPath p)"
  by (simp_all add: is_json_def)

lemma encryptStreamToFile_frame:
  assumes "encryptStreamToFile E aes c tgt w = (res, w')"
  shows "effects w' = effects w" "logged w' = logged w" "\<forall>p. p \<noteq> tgt \<longrightarrow> fs w' p = fs w p"
  using assms
  by (auto simp: encryptStreamToFile_def Let_def writeFile_simps split: prod.splits if_splits)

lemma encryptFileToFile_frame:
  assumes "encryptFileToFile E aes src tgt w = (res, w')"
  shows "filter is_json (effects w') = filter is_json (effects w)"
    and "\<forall>p. p \<noteq> tgt \<longrightarrow> fs w' p = fs w p"
proof -
  have "filter is_json (effects w') = filter is_json (effects w) \<and>
        (\<forall>p. p \<noteq> tgt \<longrightarrow> fs w' p = fs w p)"
  proof (cases "fs w src")
    case None
    then show ?thesis
      using assms by (auto simp: encryptFileToFile_def fileExists_def existsSync_def log_simps)
  next
    case (Some nd)
    show ?thesis
    proof (cases nd)
      case Directory
      then show ?thesis
        using assms Some by (auto simp: encryptFileToFile_def fileExists_def existsSync_def)
    next
      case (File content)
      obtain r1 w1 where s: "encryptStreamToFile E aes content tgt w = (r1, w1)"
        by (cases "encryptStreamToFile E aes content tgt w")
      from encryptStreamToFile_frame [OF s] assms Some File s show ?thesis
        by (cases r1)
          (auto simp: encryptFileToFile_def fileExists_def existsSync_def await_def
            journal_simps is_json_simps)
    qed
  qed
  then show "filter is_json (effects w') = filter is_json (effects w)"
    and "\<forall>p. p \<noteq> tgt \<longrightarrow> fs w' p = fs w p" by blast+
qed

lemma calcFileHash_Resolved:
  assumes "calcFileHash E p w = (Resolved h, w')"
  shows "\<exists>content. fs w p = Some (File content) \<and> h = fileHashOf E content \<and> w' = w"
  using assms
  by (auto simp: calcFileHash_def fileHashOf_def split: option.splits node.splits)

lemma calcFileHash_other:
  assumes "calcFileHash E p w = (res, w')"
  shows "w' = w"
  using assms by (auto simp: calcFileHash_def split: option.splits node.splits)

lemma getFileData_frame:
  assumes "getFileData cur h w = ((found, fileId, pw), w')"
  shows "fs w' = fs w" "effects w' = effects w" "logged w' = logged w"
  using assms by (auto simp: getFileData_def split: option.splits prod.splits)

text \<open>What a resolved \<open>encryptFile\<close> returns and records.\<close>

lemma encryptFile_Resolved:
  assumes run: "encryptFile E this fullName cur w = (Resolved fp, w')"
  shows "\<exists>content. fs w fullName = Some (File content) \<and>
           (case findFileByHash (fsDirectory this) (fileHashOf E content) of
              Some f \<Rightarrow> fp = (Some (f_fileId f), None)
            | None \<Rightarrow> (\<exists>fileId pw. fp = (Some fileId,
                           Some \<lparr>f_fileId = fileId, f_fileHash = fileHashOf E content, f_pwd = pw\<rparr>)))"
proof -
  obtain r0 w0 where c: "calcFileHash E fullName w = (r0, w0)"
    by (cases "calcFileHash E fullName w")
  from run c obtain h where r0: "r0 = Resolved h"
    by (cases r0) (auto simp: encryptFile_def await_def)
  from calcFileHash_Resolved [OF c [unfolded r0]] obtain content where
    src: "fs w fullName = Some (File content)" and h: "h = fileHashOf E content" and w0: "w0 = w"
    by blast
  show ?thesis
  proof (cases "findFileByHash (fsDirectory this) (fileHashOf E content)")
    case (Some f)
    with run c r0 h w0 src show ?thesis
      by (auto simp: encryptFile_def await_def)
  next
    case None
    with run c r0 h w0 src show ?thesis
      by (auto simp: encryptFile_def await_def split: prod.splits outcome.splits if_splits)
  qed
qed

lemma encryptFile_frame:
  assumes run: "encryptFile E this fullName cur w = (res, w')"
  shows "filter is_json (effects w') = filter is_json (effects w)"
    and "\<forall>p. (\<forall>n. p \<noteq> path_join E (encDir this) n) \<longrightarrow> fs w' p = fs w p"
proof -
  have "filter is_json (effects w') = filter is_json (effects w) \<and>
        (\<forall>p. (\<forall>n. p \<noteq> path_join E (encDir this) n) \<longrightarrow> fs w' p = fs w p)"
  proof -
    obtain r0 w0 where c: "calcFileHash E fullName w = (r0, w0)"
      by (cases "calcFileHash E fullName w")
    have w0: "w0 = w" by (rule calcFileHash_other [OF c])
    show ?thesis
    proof (cases r0)
      case (Resolved h)
      show ?thesis
      proof (cases "findFileByHash (fsDirectory this) h")
        case (Some f)
        with run c Resolved w0 show ?thesis
          by (auto simp: encryptFile_def await_def)
      next
        case None
        obtain found fileId pw w2 where g: "getFileData cur h w = ((found, fileId, pw), w2)"
          by (metis prod.exhaust)
        note gf = getFileData_frame [OF g]
        show ?thesis
        proof (cases found)
          case True
          with run c Resolved w0 None g gf show ?thesis
            by (auto simp: encryptFile_def await_def)
        next
          case False
          obtain r3 w3 where e: "encryptFileToFile E (new_AESFileCryptor E pw) fullName
              (getEncFilePath E this fileId) w2 = (r3, w3)"
            by (metis prod.exhaust)
          note ef = encryptFileToFile_frame [OF e]
          from run c Resolved w0 None g False e have "w' = w3"
            by (cases r3) (auto simp: encryptFile_def await_def)
          with ef gf show ?thesis
            by (auto simp: getEncFilePath_def)
        qed
      qed
    next
      case Pending
      with run c w0 show ?thesis by (auto simp: encryptFile_def await_def)
    next
      case (Threw e)
      with run c w0 show ?thesis by (auto simp: encryptFile_def await_def)
    qed
  qed
  then show "filter is_json (effects w') = filter is_json (effects w)"
    and "\<forall>p. (\<forall>n. p \<noteq> path_join E (encDir this) n) \<longrightarrow> fs w' p = fs w p" by blast+
qed


lemma find_append_None: "find P xs = None \<Longrightarrow> find P (xs @ ys) = find P ys"
  by (induction xs) (auto split: if_splits)

lemma encryptDirent_frame:
  assumes run: "encryptDirent E cur d this w = (res, this', w')"
  shows "filter is_json (effects w') = filter is_json (effects w)"
    and "\<forall>p. (\<forall>n. p \<noteq> path_join E (encDir this) n) \<longrightarrow> fs w' p = fs w p"
    and "srcDir this' = srcDir this" and "encDir this' = encDir this"
    and "defaultFileName (fsDirectory this') = defaultFileName (fsDirectory this)"
proof -
  let ?full = "path_join E (sd_path d) (sd_name d)"
  have "filter is_json (effects w') = filter is_json (effects w) \<and>
    (\<forall>p. (\<forall>n. p \<noteq> path_join E (encDir this) n) \<longrightarrow> fs w' p = fs w p) \<and>
    srcDir this' = srcDir this \<and> encDir this' = encDir this \<and>
    defaultFileName (fsDirectory this') = defaultFileName (fsDirectory this)"
  proof (cases "sd_isDirectory d")
    case True
    with run show ?thesis
      by (auto simp: encryptDirent_def Let_def logDirentEncryption_simps addEntry_def)
  next
    case False
    obtain r1 w1 where e: "encryptFile E this ?full cur w = (r1, w1)"
      by (metis prod.exhaust)
    note ef = encryptFile_frame [OF e]
    from run e False ef show ?thesis
      by (cases r1) (auto simp: encryptDirent_def Let_def logDirentEncryption_simps addEntry_def)
  qed
  then show "filter is_json (effects w') = filter is_json (effects w)"
    and "\<forall>p. (\<forall>n. p \<noteq> path_join E (encDir this) n) \<longrightarrow> fs w' p = fs w p"
    and "srcDir this' = srcDir this" and "encDir this' = encDir this"
    and "defaultFileName (fsDirectory this') = defaultFileName (fsDirectory this)"
    by blast+
qed

lemma encryptDirent_directory:
  assumes run: "encryptDirent E cur d this w = (Resolved (), this', w')"
    and dir: "sd_isDirectory d"
  shows "files (fsDirectory this') = files (fsDirectory this)"
    and "dirents (fsDirectory this') = dirents (fsDirectory this) @
           [\<lparr>d_path = getRelativePath (srcDir this) (getDirentFullName E d), d_fileId = None\<rparr>]"
  using run dir
  by (auto simp: encryptDirent_def Let_def addEntry_def truthy_def getDirentFullName_def)

lemma encryptDirent_regular:
  assumes run: "encryptDirent E cur d this w = (Resolved (), this', w')"
    and nd: "\<not> sd_isDirectory d"
  shows "\<exists>content f. fs w (getDirentFullName E d) = Some (File content) \<and>
           find (\<lambda>f. f_fileHash f = fileHashOf E content) (files (fsDirectory this')) = Some f \<and>
           (files (fsDirectory this') = files (fsDirectory this) \<or>
            files (fsDirectory this') = files (fsDirectory this) @ [f] \<and>
            f_fileHash f \<notin> f_fileHash ` set (files (fsDirectory this))) \<and>
           dirents (fsDirectory this') = dirents (fsDirectory this) @
             [\<lparr>d_path = getRelativePath (srcDir this) (getDirentFullName E d),
               d_fileId = recorded_fileId E (files (fsDirectory this')) content\<rparr>]"
proof -
  let ?full = "path_join E (sd_path d) (sd_name d)"
  let ?rel = "getRelativePath (srcDir this) ?full"
  obtain r1 w1 where e: "encryptFile E this ?full cur w = (r1, w1)"
    by (metis prod.exhaust)
  from run nd e obtain fp where r1: "r1 = Resolved fp"
    by (cases r1) (auto simp: encryptDirent_def Let_def)
  from run nd e r1 have this': "fsDirectory this' = addEntry (fsDirectory this) ?rel (fst fp) (snd fp)"
    by (auto simp: encryptDirent_def Let_def)
  from encryptFile_Resolved [OF e [unfolded r1]] obtain content where
    src: "fs w ?full = Some (File content)" and
    fp: "case findFileByHash (fsDirectory this) (fileHashOf E content) of
              Some f \<Rightarrow> fp = (Some (f_fileId f), None)
            | None \<Rightarrow> (\<exists>fileId pw. fp = (Some fileId,
                           Some \<lparr>f_fileId = fileId, f_fileHash = fileHashOf E content, f_pwd = pw\<rparr>))"
    by blast
  show ?thesis
  proof (cases "findFileByHash (fsDirectory this) (fileHashOf E content)")
    case (Some f)
    with fp have "fp = (Some (f_fileId f), None)" by simp
    with this' Some src show ?thesis
      by (auto simp: addEntry_def truthy_def recorded_fileId_def findFileByHash_def
          getDirentFullName_def)
  next
    case None
    with fp obtain fileId pw where
      fp': "fp = (Some fileId, Some \<lparr>f_fileId = fileId, f_fileHash = fileHashOf E content, f_pwd = pw\<rparr>)"
      by auto
    let ?f = "\<lparr>f_fileId = fileId, f_fileHash = fileHashOf E content, f_pwd = pw\<rparr>"
    from None have notin: "fileHashOf E content \<notin> f_fileHash ` set (files (fsDirectory this))"
      by (auto simp: findFileByHash_def find_None_iff)
    from None have "find (\<lambda>f. f_fileHash f = fileHashOf E content) (files (fsDirectory this) @ [?f])
        = Some ?f"
      by (simp add: findFileByHash_def find_append_None)
    with this' fp' src notin show ?thesis
      by (auto simp: addEntry_def truthy_def recorded_fileId_def getDirentFullName_def)
  qed
qed


lemma encryptDirents_frame:
  assumes "encryptDirents E cur ds this w = (res, this', w')"
  shows "filter is_json (effects w') = filter is_json (effects w) \<and>
         (\<forall>p. (\<forall>n. p \<noteq> path_join E (encDir this) n) \<longrightarrow> fs w' p = fs w p) \<and>
         srcDir this' = srcDir this \<and> encDir this' = encDir this \<and>
         defaultFileName (fsDirectory this') = defaultFileName (fsDirectory this)"
  using assms
proof (induction ds arbitrary: this w)
  case Nil
  then show ?case by simp
next
  case (Cons d ds)
  obtain r1 this1 w1 where step: "encryptDirent E cur d this w = (r1, this1, w1)"
    by (metis prod.exhaust)
  note f = encryptDirent_frame [OF step]
  show ?case
  proof (cases r1)
    case (Resolved u)
    with Cons.prems step have "encryptDirents E cur ds this1 w1 = (res, this', w')"
      by simp
    from Cons.IH [OF this] f show ?thesis by simp
  next
    case Pending
    with Cons.prems step f show ?thesis by auto
  next
    case (Threw e)
    with Cons.prems step f show ?thesis by auto
  qed
qed









lemma decryptFileToStream_frame:
  assumes "decryptFileToStream E aes src w = (r, w')"
  shows "fs w' = fs w \<and> effects w' = effects w \<and> rnd w' = rnd w"
  using assms
  by (auto simp: decryptFileToStream_def Let_def log_simps
      split: if_splits option.splits node.splits prod.splits bool.splits)

lemma decryptFileToJson_frame:
  assumes "decryptFileToJson E aes src w = (r, w')"
  shows "fs w' = fs w \<and> effects w' = effects w \<and> rnd w' = rnd w"
proof -
  obtain d r0 w0 where s: "decryptFileToStream E aes src w = ((d, r0), w0)"
    by (metis prod.exhaust)
  from decryptFileToStream_frame [OF s] assms s show ?thesis
    by (cases r0)
      (auto simp: decryptFileToJson_def await_def Let_def split: if_splits option.splits)
qed

lemma loadEntries_frame:
  assumes "loadEntries E d dir pw w = (r, w')"
  shows "fs w' = fs w \<and> effects w' = effects w \<and> rnd w' = rnd w"
proof -
  obtain r0 w0 where s: "decryptFileToJson E (new_AESFileCryptor E pw)
      (path_join E dir (defaultFileName d)) w = (r0, w0)"
    by (metis prod.exhaust)
  from decryptFileToJson_frame [OF s] assms s show ?thesis
    by (cases r0) (auto simp: loadEntries_def getAesFileCryptorAndFile_def await_def Let_def)
qed

lemma loadEntries_Resolved:
  assumes "loadEntries E d dir pw w = (Resolved (d', es), w')"
  shows "es = getEntries d' \<and> defaultFileName d' = defaultFileName d"
proof -
  obtain r0 w0 where s: "decryptFileToJson E (new_AESFileCryptor E pw)
      (path_join E dir (defaultFileName d)) w = (r0, w0)"
    by (metis prod.exhaust)
  from assms s show ?thesis
    by (cases r0)
      (auto simp: loadEntries_def getAesFileCryptorAndFile_def await_def Let_def
        split: option.splits)
qed

lemma loadDecEntries_Some:
  assumes "loadDecEntries E this pw (Some d) w = (Resolved (this1, cur, es), w1)"
  shows "this1 = this \<and> es = getEntries cur \<and> fs w1 = fs w \<and> effects w1 = effects w"
proof -
  obtain r0 w0 where s: "loadEntries E d (encDir this) pw w = (r0, w0)"
    by (metis prod.exhaust)
  from assms s obtain d' es' where r0: "r0 = Resolved (d', es')"
    by (cases r0) (auto simp: loadDecEntries_def await_def)
  from loadEntries_frame [OF s] loadEntries_Resolved [OF s [unfolded r0]] assms s r0
  show ?thesis
    by (auto simp: loadDecEntries_def await_def)
qed

lemma new_FSDirectory_frame:
  "fs (snd (new_FSDirectory w)) = fs w" "effects (snd (new_FSDirectory w)) = effects w"
  by (simp_all add: new_FSDirectory_def split_beta)

lemma getSrcDirents_fs:
  "fs w1 = fs w \<Longrightarrow> getSrcDirents E this w1 = getSrcDirents E this w"
  by (simp add: getSrcDirents_def existsSync_def)


lemma mkdirSyncWithCheck_frame:
  "effects (snd (mkdirSyncWithCheck p w)) = effects w"
  "q \<noteq> p \<Longrightarrow> fs (snd (mkdirSyncWithCheck p w)) q = fs w q"
  by (simp_all add: mkdirSyncWithCheck_def mkdirSync_def)

lemma removeObsoleteDirent_json:
  "filter is_json (effects (removeObsoleteDirent E this d w)) = filter is_json (effects w)"
  by (simp add: removeObsoleteDirent_def Let_def logDirentProc_simps rmSyncWithCheck_def
      rmSync_def journal_simps is_json_simps)

lemma removeObsoleteDirents_json:
  "filter is_json (effects (removeObsoleteDirents E this cur w)) = filter is_json (effects w)"
proof -
  have "filter is_json (effects (fold (removeObsoleteDirent E this) ds w)) = filter is_json (effects w)"
    for ds
    by (induction ds arbitrary: w) (simp_all add: removeObsoleteDirent_json)
  then show ?thesis by (simp add: removeObsoleteDirents_def)
qed

lemma rmSyncRecWithCheck_json:
  "filter is_json (effects (snd (rmSyncRecWithCheck E p w))) = filter is_json (effects w)"
  by (simp add: rmSyncRecWithCheck_def rmSyncWithCheck_def rmSync_def journal_simps is_json_simps)

lemma saveToFile_Resolved:
  assumes "saveToFile E d dir pw w = (Resolved (), w')"
  shows "effects w' = effects w @
           (if dirents d \<noteq> [] then [EncryptedJson (path_join E dir (defaultFileName d))] else [])"
proof (cases "dirents d = []")
  case True
  with assms show ?thesis by (simp add: saveToFile_def)
next
  case False
  obtain r0 w0 where s: "encryptStreamToFile E (new_AESFileCryptor E pw)
      (utf8_encode (JSON_stringify E (getEntries d))) (path_join E dir (defaultFileName d)) w = (r0, w0)"
    by (metis prod.exhaust)
  from encryptStreamToFile_frame(1) [OF s] assms s False show ?thesis
    by (cases r0)
      (auto simp: saveToFile_def getAesFileCryptorAndFile_def encryptJsonToFile_def await_def
        journal_simps)
qed

lemma encryptDirents_length:
  assumes "encryptDirents E cur ds this w = (Resolved (), this', w')"
  shows "length (dirents (fsDirectory this')) = length (dirents (fsDirectory this)) + length ds"
  using assms
proof (induction ds arbitrary: this w)
  case Nil
  then show ?case by simp
next
  case (Cons d ds)
  obtain r1 this1 w1 where step: "encryptDirent E cur d this w = (r1, this1, w1)"
    by (metis prod.exhaust)
  from Cons.prems step have r1: "r1 = Resolved ()"
    by (cases r1) auto
  with Cons.prems step have rest: "encryptDirents E cur ds this1 w1 = (Resolved (), this', w')"
    by simp
  have "length (dirents (fsDirectory this1)) = length (dirents (fsDirectory this)) + 1"
    using encryptDirent_directory(2) [OF step [unfolded r1]]
      encryptDirent_regular [OF step [unfolded r1]]
    by (cases "sd_isDirectory d") auto
  with Cons.IH [OF rest] show ?case by simp
qed

text \<open>The course of a resolved \<open>encrypt\<close>.\<close>

lemma encrypt_Resolved:
  assumes run: "encrypt E this pw w = (Resolved (), this', w')"
  shows "((getSrcDirents E this w = None \<or> getSrcDirents E this w = Some []) \<and> this' = this \<and>
          filter is_json (effects w') = filter is_json (effects w)) \<or>
         (\<exists>ds cur w2 w3. getSrcDirents E this w = Some ds \<and> ds \<noteq> [] \<and>
            encryptDirents E cur ds this w2 = (Resolved (), this', w3) \<and>
            dirents cur = e_dirents (loaded_entries E this pw w) \<and>
            files cur = e_files (loaded_entries E this pw w) \<and>
            (\<forall>p. p \<noteq> encDir this \<longrightarrow> fs w2 p = fs w p) \<and>
            filter is_json (effects w2) = filter is_json (effects w) \<and>
            filter is_json (effects w') = filter is_json (effects w3) @
              (if JSON_stringify_dirents E (dirents (fsDirectory this')) \<noteq>
                    JSON_stringify_dirents E (dirents cur) \<and> dirents (fsDirectory this') \<noteq> []
               then [EncryptedJson (path_join E (encDir this') (defaultFileName (fsDirectory this')))]
               else []))"
proof -
  obtain cur0 w0 where n: "new_FSDirectory w = (cur0, w0)"
    by (metis prod.exhaust)
  obtain rl wl where l: "loadDecEntries E this pw (Some cur0) w0 = (rl, wl)"
    by (metis prod.exhaust)
  from run n l obtain this1 cur es where rl: "rl = Resolved (this1, cur, es)"
    by (cases rl) (auto simp: encrypt_def)
  from loadDecEntries_Some [OF l [unfolded rl]] new_FSDirectory_frame [of w] n
  have this1: "this1 = this" and es: "es = getEntries cur"
    and fsl: "fs wl = fs w" and efl: "effects wl = effects w"
    by simp_all
  have loaded: "loaded_entries E this pw w = es"
    using n l rl by (simp add: loaded_entries_def)
  have listing: "getSrcDirents E this wl = getSrcDirents E this w"
    by (rule getSrcDirents_fs [OF fsl])
  show ?thesis
  proof (cases "getSrcDirents E this w")
    case None
    with run n l rl this1 listing efl show ?thesis
      by (auto simp: encrypt_def log_simps)
  next
    case (Some ds)
    show ?thesis
    proof (cases "ds = []")
      case True
      with run n l rl this1 listing Some efl rmSyncRecWithCheck_json [of E "encDir this" wl]
      show ?thesis
        by (auto simp: encrypt_def log_simps split: prod.splits bool.splits)
    next
      case False
      let ?w2 = "snd (mkdirSyncWithCheck (encDir this) wl)"
      obtain r3 this2 w3 where loop: "encryptDirents E cur ds this ?w2 = (r3, this2, w3)"
        by (metis prod.exhaust)
      from run n l rl this1 listing Some False loop have r3: "r3 = Resolved ()"
        by (cases r3) (auto simp: encrypt_def)
      let ?w4 = "removeObsoleteDirents E this2 cur w3"
      have this2: "this' = this2"
        using run n l rl this1 listing Some False loop r3
        by (auto simp: encrypt_def Let_def split: if_splits prod.splits)
      have eff: "filter is_json (effects w') = filter is_json (effects w3) @
              (if JSON_stringify_dirents E (dirents (fsDirectory this2)) \<noteq>
                    JSON_stringify_dirents E (dirents cur) \<and> dirents (fsDirectory this2) \<noteq> []
               then [EncryptedJson (path_join E (encDir this2) (defaultFileName (fsDirectory this2)))]
               else [])"
      proof (cases "equals E (fsDirectory this2) (e_dirents es)")
        case True
        with run n l rl this1 listing Some False loop r3 have "w' = ?w4"
          by (auto simp: encrypt_def Let_def)
        with True es show ?thesis
          by (auto simp: removeObsoleteDirents_json equals_def getEntries_def)
      next
        case neq: False
        obtain r5 w5 where sv: "saveToFile E (fsDirectory this2) (encDir this2) pw ?w4 = (r5, w5)"
          by (metis prod.exhaust)
        from run n l rl this1 listing Some False loop r3 neq sv
        have "r5 = Resolved ()" and "w' = w5"
          by (auto simp: encrypt_def Let_def)
        with saveToFile_Resolved [of E "fsDirectory this2" "encDir this2" pw ?w4 w5] sv neq es
        show ?thesis
          by (auto simp: removeObsoleteDirents_json equals_def getEntries_def is_json_simps)
      qed
      have w2: "(\<forall>p. p \<noteq> encDir this \<longrightarrow> fs ?w2 p = fs w p) \<and>
          filter is_json (effects ?w2) = filter is_json (effects w)"
        using fsl efl by (simp add: mkdirSyncWithCheck_frame)
      have "dirents cur = e_dirents (loaded_entries E this pw w)"
        and "files cur = e_files (loaded_entries E this pw w)"
        using loaded es by (simp_all add: getEntries_def)
      with Some False loop r3 this2 eff w2 show ?thesis
        by blast
    qed
  qed
qed

text \<open>
  C3, as the claim states it, on two runs that resolve. With an empty source and the
  store of the manifest \<open>M\<close>, the manifest of the session is empty, so it differs from
  the one loaded and their serializations differ, and no manifest is written (the store is
  removed). With the file \<open>a\<close> alone in the source and the store of the manifest \<open>O\<close>,
  the dirents of the session are those loaded while the files are not, so the
  serializations of the two manifests differ, and no manifest is written.
\<close>

theorem C3_written_iff_differs_counterexample:
  "fst (encrypt demo_env demo_this ''pw'' w_empty) = Resolved () \<and>
   loaded_entries demo_env demo_this ''pw'' w_empty = demo_manifest \<and>
   getEntries (fsDirectory (fst (snd (encrypt demo_env demo_this ''pw'' w_empty))))
     = \<lparr>e_dirents = [], e_files = []\<rparr> \<and>
   JSON_stringify demo_env
       (getEntries (fsDirectory (fst (snd (encrypt demo_env demo_this ''pw'' w_empty)))))
     \<noteq> JSON_stringify demo_env (loaded_entries demo_env demo_this ''pw'' w_empty) \<and>
   filter is_json (effects (snd (snd (encrypt demo_env demo_this ''pw'' w_empty)))) = [] \<and>
   fst (encrypt demo_env demo_this ''pw'' w_orphan) = Resolved () \<and>
   loaded_entries demo_env demo_this ''pw'' w_orphan = demo_manifest_O \<and>
   dirents (fsDirectory (fst (snd (encrypt demo_env demo_this ''pw'' w_orphan))))
     = e_dirents demo_manifest_O \<and>
   files (fsDirectory (fst (snd (encrypt demo_env demo_this ''pw'' w_orphan))))
     = [hd demo_files] \<and>
   e_files demo_manifest_O = demo_files \<and> demo_files \<noteq> [hd demo_files] \<and>
   JSON_stringify demo_env
       (getEntries (fsDirectory (fst (snd (encrypt demo_env demo_this ''pw'' w_orphan)))))
     \<noteq> JSON_stringify demo_env (loaded_entries demo_env demo_this ''pw'' w_orphan) \<and>
   filter is_json (effects (snd (snd (encrypt demo_env demo_this ''pw'' w_orphan)))) = []"
  by code_simp

text \<open>
  C3, amended. At the end of an \<open>encrypt\<close> run that resolves, the manifest is encrypted
  into the sentinel path of the store if and only if the source directory exists and
  lists at least one eligible entry and the serialized dirents of the session differ from
  the serialized dirents loaded at the start of the run; when they do not differ, and
  when the source is missing or lists no eligible entry, no manifest is written. The files
  of the manifest are not compared.
\<close>

theorem C3_manifest_written:
  assumes run: "fst (encrypt E this masterPwd w) = Resolved ()"
  shows "filter is_json (effects (snd (snd (encrypt E this masterPwd w)))) =
           filter is_json (effects w) @
           (if (\<exists>ds. getSrcDirents E this w = Some ds \<and> ds \<noteq> []) \<and>
               JSON_stringify_dirents E
                   (dirents (fsDirectory (fst (snd (encrypt E this masterPwd w)))))
                 \<noteq> JSON_stringify_dirents E (e_dirents (loaded_entries E this masterPwd w))
            then [EncryptedJson (path_join E (encDir this) (defaultFileName (fsDirectory this)))]
            else [])"
proof -
  obtain this' w' where r: "encrypt E this masterPwd w = (Resolved (), this', w')"
    using run by (metis prod.collapse)
  from encrypt_Resolved [OF r] consider
    (idle) "getSrcDirents E this w = None \<or> getSrcDirents E this w = Some []"
      "filter is_json (effects w') = filter is_json (effects w)"
  | (run) ds cur w2 w3 where "getSrcDirents E this w = Some ds" "ds \<noteq> []"
      "encryptDirents E cur ds this w2 = (Resolved (), this', w3)"
      "dirents cur = e_dirents (loaded_entries E this masterPwd w)"
      "filter is_json (effects w2) = filter is_json (effects w)"
      "filter is_json (effects w') = filter is_json (effects w3) @
              (if JSON_stringify_dirents E (dirents (fsDirectory this')) \<noteq>
                    JSON_stringify_dirents E (dirents cur) \<and> dirents (fsDirectory this') \<noteq> []
               then [EncryptedJson (path_join E (encDir this') (defaultFileName (fsDirectory this')))]
               else [])"
    by blast
  then show ?thesis
  proof cases
    case idle
    then show ?thesis using r by auto
  next
    case run
    from encryptDirents_length [OF run(3)] run(2) have ne: "dirents (fsDirectory this') \<noteq> []"
      by auto
    from encryptDirents_frame [OF run(3)] run ne r show ?thesis
      by simp
  qed
qed

text \<open>
  The amended statement on two runs: the source that the manifest \<open>M\<close> describes, where
  nothing is written, and a first run, where the manifest is written.
\<close>

theorem C3_manifest_written_witness:
  "filter is_json (effects (snd (snd (encrypt demo_env demo_this ''pw'' w_second)))) = [] \<and>
   filter is_json (effects (snd (snd (encrypt demo_env demo_this ''pw'' w_first))))
     = [EncryptedJson demo_sentinel]"
proof -
  have r2: "fst (encrypt demo_env demo_this ''pw'' w_second) = Resolved ()"
    by code_simp
  have r1: "fst (encrypt demo_env demo_this ''pw'' w_first) = Resolved ()"
    by code_simp
  have same: "JSON_stringify_dirents demo_env
         (dirents (fsDirectory (fst (snd (encrypt demo_env demo_this ''pw'' w_second)))))
       = JSON_stringify_dirents demo_env (e_dirents (loaded_entries demo_env demo_this ''pw'' w_second))"
    by code_simp
  have differ: "JSON_stringify_dirents demo_env
         (dirents (fsDirectory (fst (snd (encrypt demo_env demo_this ''pw'' w_first)))))
       \<noteq> JSON_stringify_dirents demo_env (e_dirents (loaded_entries demo_env demo_this ''pw'' w_first))"
    by code_simp
  have listed: "getSrcDirents demo_env demo_this w_first \<noteq> None"
    "getSrcDirents demo_env demo_this w_first \<noteq> Some []"
    by code_simp+
  have e: "effects w_second = []" "effects w_first = []"
    by code_simp+
  have s: "path_join demo_env (encDir demo_this) (defaultFileName (fsDirectory demo_this))
      = demo_sentinel"
    by code_simp
  from C3_manifest_written [OF r2] C3_manifest_written [OF r1] same differ listed e s
  show ?thesis by auto
qed

lemma new_CryptDir_empty:
  "dirents (fsDirectory (fst (new_CryptDir E src enc w))) = [] \<and>
   files (fsDirectory (fst (new_CryptDir E src enc w))) = []"
  by (simp add: new_CryptDir_def new_FSDirectory_def split_beta)





text \<open>
  When the decipher stream fails on a stored object, \<open>decryptFileToStream\<close> logs the
  warning and its promise stays pending; the loop of \<open>decrypt\<close> then never reaches the
  entries after the one that awaits it.
\<close>

lemma decryptFileToStream_decipher_error:
  assumes "fs w src = Some (File content)"
    and "valid_key_iv (cipherKey aes) (getBytes content)"
    and "\<not> snd (decipher E (cipherKey aes) (the (getBytes content)) (drop 16 content))"
  shows "snd (fst (decryptFileToStream E aes src w)) = Pending \<and>
         logged (snd (decryptFileToStream E aes src w)) = logged w @ [''Incorrect password'']"
  using assms
  by (auto simp: decryptFileToStream_def existsSync_def Let_def log_simps
      split: prod.splits bool.splits)

lemma decryptDirents_Pending:
  "decryptDirent E this d w = (Pending, w1) \<Longrightarrow>
     decryptDirents E this (d # rest) w = (Pending, w1)"
  by (simp add: await_def)

text \<open>
  C4, on the store of the manifest \<open>M\<close> with the blob of \<open>a\<close> encrypted under another
  passphrase and an empty destination: \<open>decrypt\<close> logs the warning for \<open>a\<close> and stays
  pending there. The file \<open>b\<close>, the next entry, is never written, although its blob is
  whole and decrypts to its content under its secret. In the same way \<open>encrypt\<close> with a
  wrong master passphrase stays pending at the manifest.
\<close>

theorem C4_failed_object_halts_run:
  "fst (decrypt demo_env demo_this ''pw'' w_bad) = Pending \<and>
   logged (snd (snd (decrypt demo_env demo_this ''pw'' w_bad))) = [''Incorrect password''] \<and>
   e_dirents demo_manifest =
     [\<lparr>d_path = ''a'', d_fileId = Some ''ID1''\<rparr>, \<lparr>d_path = ''b'', d_fileId = Some ''ID2''\<rparr>] \<and>
   fs (snd (snd (decrypt demo_env demo_this ''pw'' w_bad))) (demo_join ''src'' ''b'') = None \<and>
   fst (decryptFileToStream demo_env (new_AESFileCryptor demo_env ''qq'') (demo_join ''enc'' ''ID2'')
          w_bad) = ([4], Resolved ()) \<and>
   fst (encrypt demo_env demo_this ''wrong'' w_second) = Pending \<and>
   logged (snd (snd (encrypt demo_env demo_this ''wrong'' w_second))) = [''Incorrect password''] \<and>
   effects (snd (snd (encrypt demo_env demo_this ''wrong'' w_second))) = []"
  by code_simp

end
